theory Spec2Isabelle
  imports Complex_Main "HOL-Library.Char_ord" "HOL-Library.List_Lexorder"
    "HOL-Library.Monad_Syntax"
begin

section \<open>JavaScript values and host functions\<close>

text \<open>
  The dashboard is JavaScript.  A Number is modelled by the rational it denotes, with
  the three special values the code can meet; rounding to a double and the sign of
  zero are outside the model (the places where rounding matters are pointed out where
  they occur).  A string is a list of characters, compared the way JavaScript compares
  strings (code unit by code unit, a proper prefix first); code units above 255 are
  outside the model.
\<close>

datatype jsnum = NaN | NegInfinity | Num rat | Infinity

text \<open>\<^verbatim>\<open>a < b\<close> on Numbers: false as soon as one side is \<^verbatim>\<open>NaN\<close>.\<close>

fun num_lt :: "jsnum \<Rightarrow> jsnum \<Rightarrow> bool" where
  "num_lt NaN b = False"
| "num_lt a NaN = False"
| "num_lt (Num a) (Num b) = (a < b)"
| "num_lt NegInfinity NegInfinity = False"
| "num_lt NegInfinity b = True"
| "num_lt a Infinity = (a \<noteq> Infinity)"
| "num_lt a NegInfinity = False"
| "num_lt Infinity b = False"

text \<open>\<^verbatim>\<open>a > b\<close> and \<^verbatim>\<open>a >= b\<close>.\<close>

definition num_gt :: "jsnum \<Rightarrow> jsnum \<Rightarrow> bool" where
  "num_gt a b = num_lt b a"

definition num_ge :: "jsnum \<Rightarrow> jsnum \<Rightarrow> bool" where
  "num_ge a b = (a \<noteq> NaN \<and> b \<noteq> NaN \<and> \<not> num_lt a b)"

text \<open>\<^verbatim>\<open>a + b\<close> and \<^verbatim>\<open>a / b\<close> on Numbers (exact on finite values).\<close>

fun num_add :: "jsnum \<Rightarrow> jsnum \<Rightarrow> jsnum" where
  "num_add NaN b = NaN"
| "num_add a NaN = NaN"
| "num_add (Num a) (Num b) = Num (a + b)"
| "num_add Infinity NegInfinity = NaN"
| "num_add NegInfinity Infinity = NaN"
| "num_add Infinity b = Infinity"
| "num_add a Infinity = Infinity"
| "num_add NegInfinity b = NegInfinity"
| "num_add a NegInfinity = NegInfinity"

fun num_div :: "jsnum \<Rightarrow> jsnum \<Rightarrow> jsnum" where
  "num_div (Num a) (Num b) =
     (if b = 0 then (if a = 0 then NaN else if 0 < a then Infinity else NegInfinity)
      else Num (a / b))"
| "num_div (Num a) Infinity = Num 0"
| "num_div (Num a) NegInfinity = Num 0"
| "num_div Infinity (Num b) = (if 0 \<le> b then Infinity else NegInfinity)"
| "num_div NegInfinity (Num b) = (if 0 \<le> b then NegInfinity else Infinity)"
| "num_div a b = NaN"

text \<open>
  A value as it comes out of the JSON response of the GraphQL endpoint, plus
  \<^verbatim>\<open>undefined\<close>, which reading a property that an object does not have yields.
\<close>

datatype json =
    JUndefined
  | JNull
  | JBool bool
  | JNum jsnum
  | JStr string
  | JArr "json list"
  | JObj "(string \<times> json) list"

text \<open>Truthiness, as \<^verbatim>\<open>!v\<close>, \<^verbatim>\<open>v || d\<close> and \<^verbatim>\<open>if (v)\<close> test it.\<close>

fun truthy :: "json \<Rightarrow> bool" where
  "truthy JUndefined = False"
| "truthy JNull = False"
| "truthy (JBool b) = b"
| "truthy (JNum n) = (n \<noteq> NaN \<and> n \<noteq> Num 0)"
| "truthy (JStr s) = (s \<noteq> [])"
| "truthy (JArr xs) = True"
| "truthy (JObj ps) = True"

definition js_or :: "json \<Rightarrow> json \<Rightarrow> json" where
  "js_or a b = (if truthy a then a else b)"

text \<open>
  The functions of the JavaScript runtime that the code calls and that are not code of
  this repository: \<^verbatim>\<open>new Date(v).getTime()\<close> (\<^verbatim>\<open>NaN\<close> for an invalid date),
  \<^verbatim>\<open>parseFloat(v)\<close>, \<^verbatim>\<open>String.prototype.toLowerCase\<close>, the conversion to string done
  by a template literal, and \<^verbatim>\<open>Number.prototype.toFixed(1)\<close>.  Every definition below
  takes them as a parameter, so every theorem holds whatever they compute.
\<close>

record host =
  Date :: "json \<Rightarrow> jsnum"
  parseFloat :: "json \<Rightarrow> jsnum"
  toLowerCase :: "string \<Rightarrow> string"
  ToString :: "json \<Rightarrow> string"
  toFixed1 :: "jsnum \<Rightarrow> string"

text \<open>\<^verbatim>\<open>s.includes(t)\<close> on strings: \<open>t\<close> occurs in \<open>s\<close> as a contiguous run.\<close>

fun starts_with :: "string \<Rightarrow> string \<Rightarrow> bool" where
  "starts_with s [] = True"
| "starts_with [] (c # t) = False"
| "starts_with (d # s) (c # t) = (d = c \<and> starts_with s t)"

fun str_includes :: "string \<Rightarrow> string \<Rightarrow> bool" where
  "str_includes [] t = (t = [])"
| "str_includes (d # s) t = (starts_with (d # s) t \<or> str_includes s t)"

text \<open>\<^verbatim>\<open>s.split(' ')\<close>: the pieces between the separators, at least one piece.\<close>

fun split :: "char \<Rightarrow> string \<Rightarrow> string list" where
  "split sep [] = [[]]"
| "split sep (c # cs) =
     (if c = sep then [] # split sep cs
      else (case split sep cs of [] \<Rightarrow> [[c]] | w # ws \<Rightarrow> (c # w) # ws))"

text \<open>
  \<^verbatim>\<open>a < b\<close> on the values the sort callbacks compare.  Both operands come from the
  same projection, so they are two strings, two Numbers or twice \<^verbatim>\<open>undefined\<close>
  (which converts to \<^verbatim>\<open>NaN\<close>, so the comparison is false); operands of two
  different types do not arise and are given \<open>False\<close>.
\<close>

definition js_lt :: "json \<Rightarrow> json \<Rightarrow> bool" where
  "js_lt a b =
     (case (a, b) of
        (JStr x, JStr y) \<Rightarrow> x < y
      | (JNum x, JNum y) \<Rightarrow> num_lt x y
      | _ \<Rightarrow> False)"

definition js_gt :: "json \<Rightarrow> json \<Rightarrow> bool" where
  "js_gt a b = js_lt b a"

text \<open>
  \<^verbatim>\<open>Array.prototype.sort(compareFn)\<close>.  ECMAScript (since ES2019) requires the sort to
  be stable, and for a consistent comparator the result is then determined: the
  elements in ascending order of the comparator, ties in their previous order.  The
  model is the insertion sort that computes this list.
\<close>

fun insert_by :: "('a \<Rightarrow> 'a \<Rightarrow> int) \<Rightarrow> 'a \<Rightarrow> 'a list \<Rightarrow> 'a list" where
  "insert_by compareFn x [] = [x]"
| "insert_by compareFn x (y # ys) =
     (if compareFn x y \<le> 0 then x # y # ys else y # insert_by compareFn x ys)"

fun array_sort :: "('a \<Rightarrow> 'a \<Rightarrow> int) \<Rightarrow> 'a list \<Rightarrow> 'a list" where
  "array_sort compareFn [] = []"
| "array_sort compareFn (x # xs) = insert_by compareFn x (array_sort compareFn xs)"

section \<open>The order list (route \<^verbatim>\<open>app.order\<close>, component \<^verbatim>\<open>Order\<close>)\<close>

text \<open>
  The records are typed by the selection set of the component's GraphQL query; a
  nullable field is an \<open>option\<close>.  The connection wrappers \<^verbatim>\<open>edges\<close> and
  \<^verbatim>\<open>node\<close> are flattened into a list.
\<close>

record person =
  firstName :: "string option"
  lastName :: "string option"

record stamped =
  processedAt :: string

record money =
  amount :: "string option"
  currencyCode :: "string option"

record money_bag =
  shopMoney :: "money option"

record line_item =
  title :: string
  quantity :: nat

record order = stamped +
  order_id :: string
  name :: string
  displayFulfillmentStatus :: "string option"
  displayFinancialStatus :: "string option"
  totalPriceSet :: "money_bag option"
  customer :: "person option"
  lineItems :: "line_item list"
  cancelReason :: "string option"

text \<open>
  The component's filter state.  The search text and the sort selection are state of
  both list components.
\<close>

record view_state =
  queryValue :: string
  sortSelected :: "string list"

record order_query = view_state +
  statusFilter :: "string list"
  dateFilter :: string
  productFilter :: string

text \<open>A value inside a template literal: \<^verbatim>\<open>null\<close> prints as \<^verbatim>\<open>null\<close>.\<close>

definition template_part :: "string option \<Rightarrow> string" where
  "template_part v = (case v of None \<Rightarrow> ''null'' | Some s \<Rightarrow> s)"

definition full_name :: "'a person_scheme \<Rightarrow> string" where
  "full_name p = template_part (firstName p) @ '' '' @ template_part (lastName p)"

text \<open>The callback of \<^verbatim>\<open>orders.filter\<close> in \<^verbatim>\<open>filteredOrders\<close>.\<close>

definition order_visible :: "host \<Rightarrow> order_query \<Rightarrow> order \<Rightarrow> bool" where
  "order_visible h q order =
     (let orderName = toLowerCase h (name order);
          customerName = (case customer order of
                            Some c \<Rightarrow> toLowerCase h (full_name c)
                          | None \<Rightarrow> []);
          query = toLowerCase h (queryValue q)
      in
        if query \<noteq> [] \<and> \<not> str_includes orderName query \<and> \<not> str_includes customerName query
        then False
        else if statusFilter q \<noteq> [] \<and>
                (case displayFinancialStatus order of
                   None \<Rightarrow> True
                 | Some s \<Rightarrow> toLowerCase h s \<notin> set (statusFilter q))
        then False
        else if dateFilter q \<noteq> [] \<and>
                num_lt (Date h (JStr (processedAt order))) (Date h (JStr (dateFilter q)))
        then False
        else if productFilter q \<noteq> [] \<and>
                \<not> list_ex (\<lambda>node. str_includes (toLowerCase h (title node))
                                             (toLowerCase h (productFilter q)))
                     (lineItems order)
        then False
        else True)"

text \<open>\<^verbatim>\<open>a.totalPriceSet?.shopMoney?.amount || 0\<close>.\<close>

definition amount_or_zero :: "order \<Rightarrow> json" where
  "amount_or_zero a =
     (case totalPriceSet a of
        None \<Rightarrow> JNum (Num 0)
      | Some ps \<Rightarrow>
          (case shopMoney ps of
             None \<Rightarrow> JNum (Num 0)
           | Some m \<Rightarrow>
               (case amount m of
                  None \<Rightarrow> JNum (Num 0)
                | Some s \<Rightarrow> js_or (JStr s) (JNum (Num 0)))))"

text \<open>The value the sort callback takes from a record (\<^verbatim>\<open>aValue\<close>, \<^verbatim>\<open>bValue\<close>).\<close>

definition order_sort_value :: "host \<Rightarrow> string \<Rightarrow> order \<Rightarrow> json" where
  "order_sort_value h sortKey a =
     (if sortKey = ''order'' then JStr (name a)
      else if sortKey = ''date'' then JNum (Date h (JStr (processedAt a)))
      else if sortKey = ''total'' then JNum (parseFloat h (amount_or_zero a))
      else JUndefined)"

text \<open>The three-way result both sort callbacks end with.\<close>

definition compare_values :: "string option \<Rightarrow> json \<Rightarrow> json \<Rightarrow> int" where
  "compare_values sortDirection aValue bValue =
     (if js_lt aValue bValue then (if sortDirection = Some ''asc'' then - 1 else 1)
      else if js_gt aValue bValue then (if sortDirection = Some ''asc'' then 1 else - 1)
      else 0)"

text \<open>\<^verbatim>\<open>const [sortKey, sortDirection] = sortSelected[0].split(' ')\<close>.\<close>

definition sort_key_of :: "string \<Rightarrow> string" where
  "sort_key_of s = (case split CHR '' '' s of [] \<Rightarrow> [] | k # ds \<Rightarrow> k)"

definition sort_direction_of :: "string \<Rightarrow> string option" where
  "sort_direction_of s = (case split CHR '' '' s of k # d # ds \<Rightarrow> Some d | _ \<Rightarrow> None)"

definition filteredOrders :: "host \<Rightarrow> order list \<Rightarrow> order_query \<Rightarrow> order list" where
  "filteredOrders h orders q =
     (let filtered = filter (order_visible h q) orders
      in case sortSelected q of
           [] \<Rightarrow> filtered
         | s # ss \<Rightarrow>
             array_sort
               (\<lambda>a b. compare_values (sort_direction_of s)
                        (order_sort_value h (sort_key_of s) a)
                        (order_sort_value h (sort_key_of s) b))
               filtered)"

text \<open>
  The summary cards of the order list (\<^verbatim>\<open>stats\<close>; its field \<^verbatim>\<open>total\<close> is
  \<open>total_count\<close> here).  The quotient is exact here and a double in JavaScript;
  for two counts below \<open>2^32\<close> the comparison with \<^verbatim>\<open>0.1\<close> comes out the same, the
  exact quotient being either at most \<open>1/10\<close> or above it by more than the rounding.
\<close>

record order_stats =
  total_count :: nat
  cancelled :: nat
  pending :: nat
  highRisk :: bool

definition is_cancelled :: "order \<Rightarrow> bool" where
  "is_cancelled o' =
     (displayFinancialStatus o' = Some ''VOIDED'' \<or>
      displayFinancialStatus o' = Some ''REFUNDED'' \<or>
      (case cancelReason o' of None \<Rightarrow> False | Some r \<Rightarrow> truthy (JStr r)))"

definition stats :: "order list \<Rightarrow> order_stats" where
  "stats orders =
     (let total = length orders;
          cancelled = length (filter is_cancelled orders);
          pending = length (filter (\<lambda>o'. displayFinancialStatus o' = Some ''PENDING'') orders);
          highRisk = num_gt (num_div (Num (of_nat cancelled)) (Num (of_nat total)))
                            (Num (1 / 10))
      in \<lparr>total_count = total, cancelled = cancelled, pending = pending, highRisk = highRisk\<rparr>)"

text \<open>What the component renders from: the rows of the table and the cards.\<close>

record order_view =
  order_rows :: "order list"
  order_cards :: order_stats

definition Order :: "host \<Rightarrow> order list \<Rightarrow> order_query \<Rightarrow> order_view" where
  "Order h orders q = \<lparr>order_rows = filteredOrders h orders q, order_cards = stats orders\<rparr>"

section \<open>The customer list (route \<^verbatim>\<open>app.customer\<close>, component \<^verbatim>\<open>Customer\<close>)\<close>

record address =
  country :: "string option"

record customer = person +
  customer_id :: string
  email :: "string option"
  defaultAddress :: "address option"
  tags :: "string list option"
  numberOfOrders :: nat
  lastOrder :: "stamped option"
  createdAt :: string

record customer_query = view_state +
  tagFilter :: string
  countryFilter :: string
  itemsOrderCount :: string
  lastOrderDateFilter :: string

text \<open>
  \<^verbatim>\<open>parseInt(s, 10)\<close>: leading white space (the white space characters below 256) is
  skipped, then an optional sign, then the
  longest run of decimal digits (the characters 48 to 57); \<open>None\<close> is \<^verbatim>\<open>NaN\<close> (no
  digit there).
\<close>

definition is_white_space :: "char \<Rightarrow> bool" where
  "is_white_space c =
     (c = CHR 0x09 \<or> c = CHR 0x0A \<or> c = CHR 0x0B \<or> c = CHR 0x0C \<or> c = CHR 0x0D \<or>
      c = CHR 0x20 \<or> c = CHR 0xA0)"

definition digit_of :: "char \<Rightarrow> nat option" where
  "digit_of c =
     (let k = (of_char c :: nat) in if 48 \<le> k \<and> k \<le> 57 then Some (k - 48) else None)"

text \<open>The value of the leading run of digits; \<open>None\<close> when the run is empty.\<close>

fun leading_digits :: "nat option \<Rightarrow> string \<Rightarrow> nat option" where
  "leading_digits acc [] = acc"
| "leading_digits acc (c # cs) =
     (case digit_of c of
        None \<Rightarrow> acc
      | Some d \<Rightarrow> leading_digits (Some ((case acc of None \<Rightarrow> 0 | Some n \<Rightarrow> 10 * n) + d)) cs)"

definition parseInt :: "string \<Rightarrow> int option" where
  "parseInt s =
     (case dropWhile is_white_space s of
        [] \<Rightarrow> None
      | c # cs \<Rightarrow>
          if c = CHR ''-'' then map_option (\<lambda>n. - int n) (leading_digits None cs)
          else if c = CHR ''+'' then map_option int (leading_digits None cs)
          else map_option int (leading_digits None (c # cs)))"

text \<open>The callback of \<^verbatim>\<open>customers.filter\<close> in \<^verbatim>\<open>filteredCustomers\<close>.\<close>

definition customer_visible :: "host \<Rightarrow> customer_query \<Rightarrow> customer \<Rightarrow> bool" where
  "customer_visible h q c =
     (let fullName = toLowerCase h (full_name c);
          email = toLowerCase h (case email c of None \<Rightarrow> [] | Some e \<Rightarrow> e);
          query = toLowerCase h (queryValue q)
      in
        if query \<noteq> [] \<and> \<not> str_includes fullName query \<and> \<not> str_includes email query
        then False
        else if tagFilter q \<noteq> [] \<and>
                \<not> list_ex (\<lambda>tag. str_includes (toLowerCase h tag) (toLowerCase h (tagFilter q)))
                     (case tags c of None \<Rightarrow> [] | Some ts \<Rightarrow> ts)
        then False
        else if countryFilter q \<noteq> [] \<and>
                \<not> str_includes
                     (toLowerCase h
                        (case defaultAddress c of
                           None \<Rightarrow> []
                         | Some a \<Rightarrow> (case country a of None \<Rightarrow> [] | Some co \<Rightarrow> co)))
                     (toLowerCase h (countryFilter q))
        then False
        else if itemsOrderCount q \<noteq> [] \<and>
                (case parseInt (itemsOrderCount q) of
                   None \<Rightarrow> False
                 | Some count \<Rightarrow> int (numberOfOrders c) < count)
        then False
        else if lastOrderDateFilter q \<noteq> [] then
          (case lastOrder c of
             None \<Rightarrow> True
           | Some lo \<Rightarrow>
               if processedAt lo = [] then True
               else if num_gt (Date h (JStr (processedAt lo)))
                              (Date h (JStr (lastOrderDateFilter q)))
               then False
               else True)
        else True)"

definition customer_sort_value :: "host \<Rightarrow> string \<Rightarrow> customer \<Rightarrow> json" where
  "customer_sort_value h sortKey a =
     (if sortKey = ''name'' then JStr (toLowerCase h (full_name a))
      else if sortKey = ''date'' then JNum (Date h (JStr (createdAt a)))
      else JUndefined)"

definition filteredCustomers ::
  "host \<Rightarrow> customer list \<Rightarrow> customer_query \<Rightarrow> customer list" where
  "filteredCustomers h customers q =
     (let filtered = filter (customer_visible h q) customers
      in case sortSelected q of
           [] \<Rightarrow> filtered
         | s # ss \<Rightarrow>
             array_sort
               (\<lambda>a b. compare_values (sort_direction_of s)
                        (customer_sort_value h (sort_key_of s) a)
                        (customer_sort_value h (sort_key_of s) b))
               filtered)"

text \<open>
  The card \<^verbatim>\<open>Average Orders\<close>: the quotient printed with one decimal, or the Number 0
  for an empty batch.
\<close>

definition averageOrders :: "host \<Rightarrow> customer list \<Rightarrow> json" where
  "averageOrders h customers =
     (if length customers > 0
      then JStr (toFixed1 h
             (num_div (Num (of_nat (foldl (\<lambda>acc c. acc + numberOfOrders c) 0 customers)))
                      (Num (of_nat (length customers)))))
      else JNum (Num 0))"

record customer_view =
  customer_rows :: "customer list"
  totalCustomers :: nat
  filteredCount :: nat
  averageOrdersCard :: json

definition Customer :: "host \<Rightarrow> customer list \<Rightarrow> customer_query \<Rightarrow> customer_view" where
  "Customer h customers q =
     \<lparr>customer_rows = filteredCustomers h customers q,
      totalCustomers = length customers,
      filteredCount = length (filteredCustomers h customers q),
      averageOrdersCard = averageOrders h customers\<rparr>"

section \<open>The store health page (loader of the route \<^verbatim>\<open>StoreHealth\<close>)\<close>

text \<open>
  This loader reads properties by names that its own GraphQL query does not select, so
  a node stays the JSON object it is and every property is read by name.  An exception
  (the only one this code can raise is a \<^verbatim>\<open>TypeError\<close>) is the result \<open>None\<close>.
\<close>

text \<open>
  \<^verbatim>\<open>v.k\<close>: a \<^verbatim>\<open>TypeError\<close> on \<^verbatim>\<open>undefined\<close> and \<^verbatim>\<open>null\<close>, \<^verbatim>\<open>undefined\<close> for a property
  the object does not have (an object lists a property once).  None of the names this
  loader reads is a built-in property of a string, a Number, a boolean or an array.
\<close>

fun get_prop :: "json \<Rightarrow> string \<Rightarrow> json option" where
  "get_prop JUndefined k = None"
| "get_prop JNull k = None"
| "get_prop (JObj ps) k = Some (case map_of ps k of None \<Rightarrow> JUndefined | Some v \<Rightarrow> v)"
| "get_prop v k = Some JUndefined"

text \<open>\<^verbatim>\<open>v?.k\<close>.\<close>

definition opt_prop :: "json \<Rightarrow> string \<Rightarrow> json" where
  "opt_prop v k = (case get_prop v k of None \<Rightarrow> JUndefined | Some x \<Rightarrow> x)"

text \<open>\<^verbatim>\<open>xs.filter(p)\<close> on an array, with a callback that may raise.\<close>

fun filter_opt :: "('a \<Rightarrow> bool option) \<Rightarrow> 'a list \<Rightarrow> 'a list option" where
  "filter_opt p [] = Some []"
| "filter_opt p (x # xs) =
     do { b \<leftarrow> p x; r \<leftarrow> filter_opt p xs; Some (if b then x # r else r) }"

text \<open>\<^verbatim>\<open>xs.map(f)\<close> on an array, with a callback that may raise.\<close>

fun map_opt :: "('a \<Rightarrow> 'b option) \<Rightarrow> 'a list \<Rightarrow> 'b list option" where
  "map_opt f [] = Some []"
| "map_opt f (x # xs) = do { y \<leftarrow> f x; r \<leftarrow> map_opt f xs; Some (y # r) }"

text \<open>\<^verbatim>\<open>v.filter(p)\<close> on a value: a \<^verbatim>\<open>TypeError\<close> unless \<open>v\<close> is an array.\<close>

definition array_filter :: "(json \<Rightarrow> bool option) \<Rightarrow> json \<Rightarrow> json list option" where
  "array_filter p v = (case v of JArr xs \<Rightarrow> filter_opt p xs | _ \<Rightarrow> None)"

text \<open>
  \<^verbatim>\<open>v.includes(t)\<close> with a string \<open>t\<close>: substring test on a string, membership in an
  array, a \<^verbatim>\<open>TypeError\<close> on anything else.
\<close>

definition method_includes :: "json \<Rightarrow> string \<Rightarrow> bool option" where
  "method_includes v t =
     (case v of
        JStr s \<Rightarrow> Some (str_includes s t)
      | JArr xs \<Rightarrow> Some (JStr t \<in> set xs)
      | _ \<Rightarrow> None)"

text \<open>The clock that \<^verbatim>\<open>new Date()\<close> reads, in milliseconds since the epoch.\<close>

record env =
  clock :: int

text \<open>\<^verbatim>\<open>new Date(now - d * 24 * 60 * 60 * 1000)\<close>.\<close>

definition days_ago :: "int \<Rightarrow> int \<Rightarrow> jsnum" where
  "days_ago now d = Num (of_int (now - d * 24 * 60 * 60 * 1000))"

definition ordersLast7d :: "host \<Rightarrow> int \<Rightarrow> json list \<Rightarrow> nat option" where
  "ordersLast7d h now orders =
     map_option length
       (filter_opt
          (\<lambda>o'. do { p \<leftarrow> get_prop o' ''processedAt'';
                     Some (num_ge (Date h p) (days_ago now 7)) })
          orders)"

definition ordersPrev7d :: "host \<Rightarrow> int \<Rightarrow> json list \<Rightarrow> nat option" where
  "ordersPrev7d h now orders =
     map_option length
       (filter_opt
          (\<lambda>o'. do { p \<leftarrow> get_prop o' ''processedAt'';
                     let d = Date h p;
                     Some (num_ge d (days_ago now 14) \<and> num_lt d (days_ago now 7)) })
          orders)"

text \<open>
  \<^verbatim>\<open>ordersPrev7d > 0 ? ((orderTrend / ordersPrev7d) * 100).toFixed(1) : 100\<close>.
\<close>

definition orderTrendPercent :: "host \<Rightarrow> int \<Rightarrow> nat \<Rightarrow> json" where
  "orderTrendPercent h orderTrend prev7d =
     (if prev7d > 0 then JStr (toFixed1 h (Num (of_int orderTrend / of_nat prev7d * 100)))
      else JNum (Num 100))"

definition cancelled30d :: "host \<Rightarrow> int \<Rightarrow> json list \<Rightarrow> nat option" where
  "cancelled30d h now orders =
     map_option length
       (filter_opt
          (\<lambda>o'. do { p \<leftarrow> get_prop o' ''processedAt'';
                     let d = Date h p;
                     st \<leftarrow> get_prop o' ''displayFinancialStatus'';
                     ca \<leftarrow> get_prop o' ''cancelledAt'';
                     Some (num_ge d (days_ago now 30) \<and>
                           (st = JStr ''REFUNDED'' \<or> st = JStr ''VOIDED'' \<or> truthy ca)) })
          orders)"

definition inactiveCustomers90 :: "host \<Rightarrow> int \<Rightarrow> json list \<Rightarrow> json list option" where
  "inactiveCustomers90 h now customers =
     filter_opt
       (\<lambda>c. do { lo \<leftarrow> get_prop c ''lastOrder'';
                 if \<not> truthy lo then Some True
                 else do { p \<leftarrow> get_prop lo ''processedAt'';
                           Some (num_lt (Date h p) (days_ago now 90)) } })
       customers"

definition customersNoEmail :: "json list \<Rightarrow> nat option" where
  "customersNoEmail customers =
     map_option length
       (filter_opt
          (\<lambda>c. do { e \<leftarrow> get_prop c ''email''; Some (\<not> truthy e \<or> e = JStr []) })
          customers)"

text \<open>\<^verbatim>\<open>c.orders.edges.filter(o => p(o.node.displayFinancialStatus)).length\<close>.\<close>

definition count_recent :: "(json \<Rightarrow> bool option) \<Rightarrow> json \<Rightarrow> nat option" where
  "count_recent p c =
     do { os \<leftarrow> get_prop c ''orders'';
          es \<leftarrow> get_prop os ''edges'';
          map_option length
            (array_filter
               (\<lambda>o'. do { n \<leftarrow> get_prop o' ''node'';
                          st \<leftarrow> get_prop n ''displayFinancialStatus'';
                          p st })
               es) }"

definition refundHeavyCustomers :: "json list \<Rightarrow> json list option" where
  "refundHeavyCustomers customers =
     filter_opt
       (\<lambda>c. do { refunds \<leftarrow>
                   count_recent
                     (\<lambda>st. Some (st = JStr ''REFUNDED'' \<or> st = JStr ''PARTIALLY_REFUNDED''))
                     c;
                 Some (refunds > 1) })
       customers"

text \<open>\<^verbatim>\<open>parseFloat(c.totalSpent?.amount || 0)\<close>.\<close>

definition spent_of :: "host \<Rightarrow> json \<Rightarrow> jsnum option" where
  "spent_of h c =
     do { ts \<leftarrow> get_prop c ''totalSpent'';
          Some (parseFloat h (js_or (opt_prop ts ''amount'') (JNum (Num 0)))) }"

text \<open>
  \<^verbatim>\<open>customers.reduce((acc, c) => acc + parseFloat(...), 0)\<close>.  The sum is exact here; the
  JavaScript sum rounds after each addition.
\<close>

fun totalSpentSum_from :: "host \<Rightarrow> jsnum \<Rightarrow> json list \<Rightarrow> jsnum option" where
  "totalSpentSum_from h acc [] = Some acc"
| "totalSpentSum_from h acc (c # cs) =
     do { s \<leftarrow> spent_of h c; totalSpentSum_from h (num_add acc s) cs }"

definition totalSpentSum :: "host \<Rightarrow> json list \<Rightarrow> jsnum option" where
  "totalSpentSum h customers = totalSpentSum_from h (Num 0) customers"

text \<open>\<^verbatim>\<open>totalSpentSum / (customers.length || 1)\<close>.\<close>

definition avgSpent :: "host \<Rightarrow> json list \<Rightarrow> jsnum option" where
  "avgSpent h customers =
     do { s \<leftarrow> totalSpentSum h customers;
          Some (num_div s
                  (Num (of_nat (if length customers = 0 then 1 else length customers)))) }"

definition atRiskHighValue :: "host \<Rightarrow> int \<Rightarrow> json list \<Rightarrow> json list option" where
  "atRiskHighValue h now customers =
     do { avg \<leftarrow> avgSpent h customers;
          filter_opt
            (\<lambda>c. do { lo \<leftarrow> get_prop c ''lastOrder'';
                      if \<not> truthy lo then Some False
                      else do { spent \<leftarrow> spent_of h c;
                                p \<leftarrow> get_prop lo ''processedAt'';
                                Some (num_gt spent avg \<and>
                                      num_lt (Date h p) (days_ago now 60)) } })
            customers }"

text \<open>\<^verbatim>\<open>`${c.firstName} ${c.lastName}`\<close>.\<close>

definition node_name :: "host \<Rightarrow> json \<Rightarrow> json option" where
  "node_name h c =
     do { f \<leftarrow> get_prop c ''firstName'';
          l \<leftarrow> get_prop c ''lastName'';
          Some (JStr (ToString h f @ '' '' @ ToString h l)) }"

text \<open>A row of the list \<^verbatim>\<open>lists.refundHeavy\<close>.\<close>

definition refundHeavy_row :: "host \<Rightarrow> json \<Rightarrow> json option" where
  "refundHeavy_row h c =
     do { i \<leftarrow> get_prop c ''id'';
          n \<leftarrow> node_name h c;
          e \<leftarrow> get_prop c ''email'';
          refunds \<leftarrow> count_recent (\<lambda>st. method_includes st ''REFUNDED'') c;
          Some (JObj [(''id'', i), (''name'', n), (''email'', e),
                      (''refunds'', JNum (Num (of_nat refunds)))]) }"

text \<open>A row of the list \<^verbatim>\<open>lists.atRiskHighValue\<close>.\<close>

definition atRiskHighValue_row :: "host \<Rightarrow> json \<Rightarrow> json option" where
  "atRiskHighValue_row h c =
     do { i \<leftarrow> get_prop c ''id'';
          n \<leftarrow> node_name h c;
          ts \<leftarrow> get_prop c ''totalSpent'';
          lo \<leftarrow> get_prop c ''lastOrder'';
          p \<leftarrow> get_prop lo ''processedAt'';
          Some (JObj [(''id'', i), (''name'', n), (''spent'', opt_prop ts ''amount''),
                      (''lastOrder'', p)]) }"

text \<open>
  The loader from \<^verbatim>\<open>const now = new Date()\<close> on, given the two arrays of nodes taken
  from the response.  It returns the object the page renders.
\<close>

definition loader :: "host \<Rightarrow> 'a env_scheme \<Rightarrow> json list \<Rightarrow> json list \<Rightarrow> json option" where
  "loader h e customers orders =
     do { let now = clock e;
          last7d \<leftarrow> ordersLast7d h now orders;
          prev7d \<leftarrow> ordersPrev7d h now orders;
          let orderTrend = int last7d - int prev7d;
          c30d \<leftarrow> cancelled30d h now orders;
          inactive90 \<leftarrow> inactiveCustomers90 h now customers;
          noEmail \<leftarrow> customersNoEmail customers;
          heavy \<leftarrow> refundHeavyCustomers customers;
          atRisk \<leftarrow> atRiskHighValue h now customers;
          heavy_rows \<leftarrow> map_opt (refundHeavy_row h) heavy;
          atRisk_rows \<leftarrow> map_opt (atRiskHighValue_row h) atRisk;
          Some (JObj
            [(''metrics'', JObj
               [(''ordersLast7d'', JNum (Num (of_nat last7d))),
                (''ordersPrev7d'', JNum (Num (of_nat prev7d))),
                (''orderTrend'', JNum (Num (of_int orderTrend))),
                (''orderTrendPercent'', orderTrendPercent h orderTrend prev7d),
                (''cancelled30d'', JNum (Num (of_nat c30d))),
                (''inactiveCount90'', JNum (Num (of_nat (length inactive90)))),
                (''customersNoEmail'', JNum (Num (of_nat noEmail)))]),
             (''lists'', JObj
               [(''refundHeavy'', JArr heavy_rows),
                (''atRiskHighValue'', JArr atRisk_rows)])]) }"

text \<open>A node is an object that has no property \<open>k\<close>.\<close>

definition has_no_prop :: "string \<Rightarrow> json \<Rightarrow> bool" where
  "has_no_prop k c = (case c of JObj ps \<Rightarrow> map_of ps k = None | _ \<Rightarrow> False)"

section \<open>The arrays in memory\<close>

text \<open>
  The two list components hold their batch in an array and sort in place, so for them
  an array is an object with an identity.  The world of a computation is the clock,
  the I/O performed so far (written by the fetch and by the CSV export, which are not
  part of the computations below) and the arrays in memory, each known by its address;
  the addresses below \<open>fresh\<close> are in use.  Records and JSON values are never modified
  by this code and stay values.
\<close>

record 'a world = env +
  io :: "string list"
  arrays :: "nat \<Rightarrow> 'a list"
  fresh :: nat

text \<open>A new array takes the next free address.\<close>

definition new_array :: "'a list \<Rightarrow> 'a world \<Rightarrow> nat \<times> 'a world" where
  "new_array xs w = (fresh w, w\<lparr>arrays := (arrays w)(fresh w := xs), fresh := Suc (fresh w)\<rparr>)"

text \<open>\<^verbatim>\<open>xs.filter(p)\<close> builds a new array and leaves \<open>xs\<close> alone.\<close>

definition ref_filter :: "('a \<Rightarrow> bool) \<Rightarrow> nat \<Rightarrow> 'a world \<Rightarrow> nat \<times> 'a world" where
  "ref_filter p r w = new_array (filter p (arrays w r)) w"

text \<open>
  \<^verbatim>\<open>xs.sort(compareFn)\<close> sorts \<open>xs\<close> itself and returns it.  The order that the
  runtime gives to the elements is a parameter here, \<open>sortFn\<close>: some function of the
  comparator and of the content of the array, \<open>array_sort\<close> or any other.
\<close>

definition ref_sort ::
  "(('a \<Rightarrow> 'a \<Rightarrow> int) \<Rightarrow> 'a list \<Rightarrow> 'a list) \<Rightarrow> ('a \<Rightarrow> 'a \<Rightarrow> int) \<Rightarrow> nat \<Rightarrow> 'a world \<Rightarrow>
   'a world" where
  "ref_sort sortFn compareFn r w =
     w\<lparr>arrays := (arrays w)(r := sortFn compareFn (arrays w r))\<rparr>"

text \<open>\<^verbatim>\<open>xs.length\<close>.\<close>

definition ref_length :: "nat \<Rightarrow> 'a world \<Rightarrow> nat" where
  "ref_length r w = length (arrays w r)"

text \<open>
  \<^verbatim>\<open>filteredOrders\<close> on the array \<^verbatim>\<open>orders\<close>: \<^verbatim>\<open>let filtered = orders.filter(...)\<close>, then
  \<^verbatim>\<open>filtered.sort(...)\<close> when a sort is selected, then \<^verbatim>\<open>return filtered\<close>.
\<close>

definition filteredOrders_run ::
  "((order \<Rightarrow> order \<Rightarrow> int) \<Rightarrow> order list \<Rightarrow> order list) \<Rightarrow> host \<Rightarrow> nat \<Rightarrow> order_query \<Rightarrow>
   order world \<Rightarrow> nat \<times> order world" where
  "filteredOrders_run sortFn h orders q w =
     (let (filtered, w1) = ref_filter (order_visible h q) orders w
      in case sortSelected q of
           [] \<Rightarrow> (filtered, w1)
         | s # ss \<Rightarrow>
             (filtered,
              ref_sort sortFn
                (\<lambda>a b. compare_values (sort_direction_of s)
                         (order_sort_value h (sort_key_of s) a)
                         (order_sort_value h (sort_key_of s) b))
                filtered w1))"

text \<open>\<^verbatim>\<open>stats\<close> on the array \<^verbatim>\<open>orders\<close>: its length and the lengths of two filtered copies.\<close>

definition stats_run :: "nat \<Rightarrow> order world \<Rightarrow> order_stats \<times> order world" where
  "stats_run orders w =
     (let total = ref_length orders w;
          (c, w1) = ref_filter is_cancelled orders w;
          cancelled = ref_length c w1;
          (p, w2) = ref_filter (\<lambda>o'. displayFinancialStatus o' = Some ''PENDING'') orders w1;
          pending = ref_length p w2;
          highRisk = num_gt (num_div (Num (of_nat cancelled)) (Num (of_nat total)))
                            (Num (1 / 10))
      in (\<lparr>total_count = total, cancelled = cancelled, pending = pending,
           highRisk = highRisk\<rparr>, w2))"

text \<open>The component computes \<^verbatim>\<open>filteredOrders\<close> first and \<^verbatim>\<open>stats\<close> after it.\<close>

definition Order_run ::
  "((order \<Rightarrow> order \<Rightarrow> int) \<Rightarrow> order list \<Rightarrow> order list) \<Rightarrow> host \<Rightarrow> nat \<Rightarrow> order_query \<Rightarrow>
   order world \<Rightarrow> (nat \<times> order_stats) \<times> order world" where
  "Order_run sortFn h orders q w =
     (let (rows, w1) = filteredOrders_run sortFn h orders q w;
          (cards, w2) = stats_run orders w1
      in ((rows, cards), w2))"

text \<open>\<^verbatim>\<open>filteredCustomers\<close> on the array \<^verbatim>\<open>customers\<close>, and the three customer cards.\<close>

definition filteredCustomers_run ::
  "((customer \<Rightarrow> customer \<Rightarrow> int) \<Rightarrow> customer list \<Rightarrow> customer list) \<Rightarrow> host \<Rightarrow> nat \<Rightarrow>
   customer_query \<Rightarrow> customer world \<Rightarrow> nat \<times> customer world" where
  "filteredCustomers_run sortFn h customers q w =
     (let (filtered, w1) = ref_filter (customer_visible h q) customers w
      in case sortSelected q of
           [] \<Rightarrow> (filtered, w1)
         | s # ss \<Rightarrow>
             (filtered,
              ref_sort sortFn
                (\<lambda>a b. compare_values (sort_direction_of s)
                         (customer_sort_value h (sort_key_of s) a)
                         (customer_sort_value h (sort_key_of s) b))
                filtered w1))"

definition Customer_run ::
  "((customer \<Rightarrow> customer \<Rightarrow> int) \<Rightarrow> customer list \<Rightarrow> customer list) \<Rightarrow> host \<Rightarrow> nat \<Rightarrow>
   customer_query \<Rightarrow> customer world \<Rightarrow> (nat \<times> nat \<times> nat \<times> json) \<times> customer world" where
  "Customer_run sortFn h customers q w =
     (let (rows, w1) = filteredCustomers_run sortFn h customers q w
      in ((rows, ref_length customers w1, ref_length rows w1,
           averageOrders h (arrays w1 customers)), w1))"

section \<open>Notions the properties are stated with\<close>

text \<open>A natural number written in decimal, as a user types it.\<close>

definition digit_char :: "nat \<Rightarrow> char" where
  "digit_char d = char_of (48 + d)"

fun decimal :: "nat \<Rightarrow> string" where
  "decimal n = (if n < 10 then [digit_char n] else decimal (n div 10) @ [digit_char (n mod 10)])"

text \<open>
  A text that does not start with an integer: after leading white space and an optional
  sign there is no digit.
\<close>

definition no_leading_integer :: "string \<Rightarrow> bool" where
  "no_leading_integer s =
     (case dropWhile is_white_space s of
        [] \<Rightarrow> True
      | c # cs \<Rightarrow>
          if c = CHR ''-'' \<or> c = CHR ''+''
          then (case cs of [] \<Rightarrow> True | d # ds \<Rightarrow> digit_of d = None)
          else digit_of c = None)"

text \<open>
  Two values the sort callback can order: two strings, two Numbers that are not
  \<^verbatim>\<open>NaN\<close>, or twice \<^verbatim>\<open>undefined\<close>.
\<close>

definition comparable :: "json \<Rightarrow> json \<Rightarrow> bool" where
  "comparable a b =
     (case (a, b) of
        (JStr x, JStr y) \<Rightarrow> True
      | (JNum x, JNum y) \<Rightarrow> x \<noteq> NaN \<and> y \<noteq> NaN
      | (JUndefined, JUndefined) \<Rightarrow> True
      | _ \<Rightarrow> False)"

text \<open>
  The second world is the first one with new arrays only: the clock, the I/O performed
  and every array that was in use are as they were.
\<close>

definition only_new_arrays :: "'a world \<Rightarrow> 'a world \<Rightarrow> bool" where
  "only_new_arrays w w' =
     (clock w' = clock w \<and> io w' = io w \<and> fresh w \<le> fresh w' \<and>
      (\<forall>a<fresh w. arrays w' a = arrays w a))"

text \<open>
  The part of the loader's result that is not cut from a time window: the metric
  \<^verbatim>\<open>customersNoEmail\<close> and the list \<^verbatim>\<open>refundHeavy\<close>; \<open>None\<close> when the loader raised.
\<close>

definition timeless :: "json option \<Rightarrow> (json \<times> json) option" where
  "timeless r =
     map_option
       (\<lambda>v. (opt_prop (opt_prop v ''metrics'') ''customersNoEmail'',
             opt_prop (opt_prop v ''lists'') ''refundHeavy''))
       r"

text \<open>The same part, computed from the customers alone.\<close>

definition timeless_part :: "host \<Rightarrow> json list \<Rightarrow> (json \<times> json) option" where
  "timeless_part h cs =
     do { noEmail \<leftarrow> customersNoEmail cs;
          heavy \<leftarrow> refundHeavyCustomers cs;
          heavy_rows \<leftarrow> map_opt (refundHeavy_row h) heavy;
          Some (JNum (Num (of_nat noEmail)), JArr heavy_rows) }"

section \<open>A runtime and records for the worked examples\<close>

text \<open>
  The examples below are evaluated with this runtime.  It agrees with JavaScript on the
  arguments that occur in them: the listed ISO-8601 timestamps (milliseconds since the
  epoch, UTC), the listed decimal amounts, \<^verbatim>\<open>parseFloat\<close> of a Number, lower-casing of
  ASCII text, and the text of a string, \<^verbatim>\<open>null\<close>, \<^verbatim>\<open>undefined\<close>, a boolean or an object.
\<close>

definition ascii_lower :: "string \<Rightarrow> string" where
  "ascii_lower s =
     map (\<lambda>c. if CHR ''A'' \<le> c \<and> c \<le> CHR ''Z'' then char_of (of_char c + (32::nat)) else c) s"

definition iso_dates :: "(string \<times> rat) list" where
  "iso_dates =
     [(''2020-01-01T00:00:00Z'', 1577836800000),
      (''2024-01-01T00:00:00Z'', 1704067200000),
      (''2024-01-10T00:00:00Z'', 1704844800000),
      (''2024-07-01T00:00:00Z'', 1719792000000),
      (''2024-06-01'', 1717200000000)]"

definition decimals :: "(string \<times> rat) list" where
  "decimals = [(''0.0'', 0), (''10.0'', 10), (''25.5'', 51 / 2), (''1000.0'', 1000)]"

definition sample_host :: host where
  "sample_host =
     \<lparr>Date = (\<lambda>v. case v of
                  JStr s \<Rightarrow> (case map_of iso_dates s of Some t \<Rightarrow> Num t | None \<Rightarrow> NaN)
                | _ \<Rightarrow> NaN),
      parseFloat = (\<lambda>v. case v of
                  JNum n \<Rightarrow> n
                | JStr s \<Rightarrow> (case map_of decimals s of Some x \<Rightarrow> Num x | None \<Rightarrow> NaN)
                | _ \<Rightarrow> NaN),
      toLowerCase = ascii_lower,
      ToString = (\<lambda>v. case v of
                  JStr s \<Rightarrow> s | JNull \<Rightarrow> ''null'' | JUndefined \<Rightarrow> ''undefined''
                | JBool b \<Rightarrow> (if b then ''true'' else ''false'')
                | _ \<Rightarrow> ''[object Object]''),
      toFixed1 = (\<lambda>n. if n = Num 0 then ''0.0'' else if n = Num (5 / 2) then ''2.5'' else ''NaN'')\<rparr>"

text \<open>
  A customer node as the query \<^verbatim>\<open>StoreHealthData\<close> selects it: \<^verbatim>\<open>id\<close>, \<^verbatim>\<open>firstName\<close>,
  \<^verbatim>\<open>lastName\<close>, \<^verbatim>\<open>defaultEmailAddress { emailAddress }\<close>, \<^verbatim>\<open>amountSpent { amount }\<close>,
  \<^verbatim>\<open>numberOfOrders\<close>, \<^verbatim>\<open>lastOrder\<close> and the financial statuses of the recent orders.
\<close>

definition customer_node ::
  "string \<Rightarrow> string \<Rightarrow> string \<Rightarrow> string \<Rightarrow> string \<Rightarrow> nat \<Rightarrow> json \<Rightarrow> json list \<Rightarrow> json" where
  "customer_node i f l e a n lo sts =
     JObj [(''id'', JStr i), (''firstName'', JStr f), (''lastName'', JStr l),
           (''defaultEmailAddress'', JObj [(''emailAddress'', JStr e)]),
           (''amountSpent'', JObj [(''amount'', JStr a)]),
           (''numberOfOrders'', JNum (Num (of_nat n))),
           (''lastOrder'', lo),
           (''orders'', JObj [(''edges'',
              JArr (map (\<lambda>st. JObj [(''node'', JObj [(''displayFinancialStatus'', st)])]) sts))])]"

definition big_spender :: json where
  "big_spender =
     customer_node ''gid://shopify/Customer/1'' ''Ada'' ''Lovelace'' ''ada@example.com''
       ''1000.0'' 12
       (JObj [(''processedAt'', JStr ''2020-01-01T00:00:00Z''),
              (''displayFinancialStatus'', JStr ''PAID'')])
       [JStr ''PAID'']"

definition newcomer :: json where
  "newcomer =
     customer_node ''gid://shopify/Customer/2'' ''Bob'' ''Byte'' ''bob@example.com''
       ''0.0'' 0 JNull []"

definition refunder :: json where
  "refunder =
     customer_node ''gid://shopify/Customer/3'' ''Cy'' ''Cle'' ''cy@example.com''
       ''25.5'' 3 JNull [JStr ''REFUNDED'', JStr ''REFUNDED'', JNull]"

definition recent_order :: json where
  "recent_order =
     JObj [(''id'', JStr ''gid://shopify/Order/1''),
           (''processedAt'', JStr ''2024-01-01T00:00:00Z''),
           (''displayFinancialStatus'', JStr ''PAID''),
           (''cancelledAt'', JNull)]"

definition sample_customer ::
  "string \<Rightarrow> string \<Rightarrow> nat \<Rightarrow> stamped option \<Rightarrow> string \<Rightarrow> customer" where
  "sample_customer f l n lo cr =
     \<lparr>firstName = Some f, lastName = Some l, customer_id = ''gid://shopify/Customer/7'',
      email = None, defaultAddress = None, tags = None, numberOfOrders = n,
      lastOrder = lo, createdAt = cr\<rparr>"

text \<open>The customer list's state with only these two filters set.\<close>

definition customer_filters :: "string \<Rightarrow> string \<Rightarrow> customer_query" where
  "customer_filters cnt bound =
     \<lparr>queryValue = [], sortSelected = [''date desc''], tagFilter = [], countryFilter = [],
      itemsOrderCount = cnt, lastOrderDateFilter = bound\<rparr>"

definition three_orders :: customer where
  "three_orders = sample_customer ''Ada'' ''Lovelace'' 3 None ''2020-01-01T00:00:00Z''"

definition ordered_in_january :: customer where
  "ordered_in_january =
     sample_customer ''Bob'' ''Byte'' 1 (Some \<lparr>processedAt = ''2024-01-10T00:00:00Z''\<rparr>)
       ''2020-01-01T00:00:00Z''"

definition ordered_in_july :: customer where
  "ordered_in_july =
     sample_customer ''Cy'' ''Cle'' 1 (Some \<lparr>processedAt = ''2024-07-01T00:00:00Z''\<rparr>)
       ''2020-01-01T00:00:00Z''"

definition sample_order :: "string \<Rightarrow> string \<Rightarrow> string \<Rightarrow> string \<Rightarrow> order" where
  "sample_order nm pa st amt =
     \<lparr>processedAt = pa, order_id = ''gid://shopify/Order/'' @ nm, name = nm,
      displayFulfillmentStatus = None, displayFinancialStatus = Some st,
      totalPriceSet = Some \<lparr>shopMoney = Some \<lparr>amount = Some amt, currencyCode = Some ''USD''\<rparr>\<rparr>,
      customer = None, lineItems = [\<lparr>title = ''Mug'', quantity = 1\<rparr>], cancelReason = None\<rparr>"

definition order_sorting :: "string \<Rightarrow> order_query" where
  "order_sorting s =
     \<lparr>queryValue = [], sortSelected = [s], statusFilter = [''paid''], dateFilter = [],
      productFilter = []\<rparr>"

definition customer_sorting :: "string \<Rightarrow> customer_query" where
  "customer_sorting s =
     \<lparr>queryValue = [], sortSelected = [s], tagFilter = [], countryFilter = [],
      itemsOrderCount = [], lastOrderDateFilter = []\<rparr>"

definition four_orders :: "order list" where
  "four_orders =
     [sample_order ''#1004'' ''2024-01-10T00:00:00Z'' ''PAID'' ''25.5'',
      sample_order ''#1003'' ''2024-01-10T00:00:00Z'' ''PAID'' ''10.0'',
      sample_order ''#1002'' ''2024-01-01T00:00:00Z'' ''PENDING'' ''10.0'',
      sample_order ''#1001'' ''2024-01-01T00:00:00Z'' ''PAID'' ''10.0'']"

definition three_customers :: "customer list" where
  "three_customers =
     [sample_customer ''ada'' ''Lovelace'' 3 None ''2024-01-10T00:00:00Z'',
      sample_customer ''Bob'' ''Byte'' 1 None ''2024-01-01T00:00:00Z'',
      sample_customer ''Ada'' ''Lovelace'' 0 None ''2024-01-10T00:00:00Z'']"

text \<open>A world with one array in use, at the address \<open>r\<close>.\<close>

definition sample_world :: "int \<Rightarrow> string list \<Rightarrow> nat \<Rightarrow> 'a list \<Rightarrow> 'a world" where
  "sample_world t sent r xs =
     \<lparr>clock = t, io = sent, arrays = (\<lambda>a. if a = r then xs else []), fresh = Suc r\<rparr>"

section \<open>Properties of the order cards\<close>

lemma highRisk_iff:
  "c \<le> t \<Longrightarrow>
   num_gt (num_div (Num (of_nat c)) (Num (of_nat t))) (Num (1 / 10)) = (t \<noteq> 0 \<and> t < 10 * c)"
  by (auto simp: num_gt_def field_simps)

lemma truthy_reason:
  "(case r of None \<Rightarrow> False | Some x \<Rightarrow> truthy (JStr x)) = (\<exists>c cs. r = Some (c # cs))"
  by (cases r) (auto simp: neq_Nil_conv)

text \<open>
  C4.  For every order batch the cards are: the number of orders; the number of orders
  whose financial status is REFUNDED or VOIDED or that carry a cancellation reason (a
  reason that is present and not the empty text); the number of orders whose status is
  PENDING; and the flag that says whether the cancelled count divided by the total is
  above one tenth.  For the empty batch the division is \<^verbatim>\<open>0 / 0\<close>, the comparison with
  \<^verbatim>\<open>NaN\<close> is false, and the flag is off.
\<close>

theorem stats_counts:
  "total_count (stats orders) = length orders \<and>
   cancelled (stats orders) =
     card {i. i < length orders \<and>
              (displayFinancialStatus (orders ! i) = Some ''REFUNDED'' \<or>
               displayFinancialStatus (orders ! i) = Some ''VOIDED'' \<or>
               (\<exists>c cs. cancelReason (orders ! i) = Some (c # cs)))} \<and>
   pending (stats orders) =
     card {i. i < length orders \<and> displayFinancialStatus (orders ! i) = Some ''PENDING''} \<and>
   highRisk (stats orders) =
     (orders \<noteq> [] \<and>
      (of_nat (cancelled (stats orders)) :: rat) / of_nat (total_count (stats orders)) > 1 / 10) \<and>
   highRisk (stats []) = False"
proof -
  let ?c = "length (filter is_cancelled orders)"
  have le: "?c \<le> length orders" by simp
  have tot: "total_count (stats orders) = length orders" by (simp add: stats_def Let_def)
  have canc: "cancelled (stats orders) = ?c" by (simp add: stats_def Let_def)
  have cnt: "?c = card {i. i < length orders \<and>
              (displayFinancialStatus (orders ! i) = Some ''REFUNDED'' \<or>
               displayFinancialStatus (orders ! i) = Some ''VOIDED'' \<or>
               (\<exists>c cs. cancelReason (orders ! i) = Some (c # cs)))}"
    unfolding length_filter_conv_card is_cancelled_def truthy_reason
    by (rule arg_cong [where f = card]) auto
  have pend: "pending (stats orders) =
     card {i. i < length orders \<and> displayFinancialStatus (orders ! i) = Some ''PENDING''}"
    by (simp add: stats_def Let_def length_filter_conv_card)
  have risk: "highRisk (stats orders) = (length orders \<noteq> 0 \<and> length orders < 10 * ?c)"
    using highRisk_iff [OF le] by (simp add: stats_def Let_def)
  have ratio: "(length orders \<noteq> 0 \<and> length orders < 10 * ?c) =
     (orders \<noteq> [] \<and> (of_nat ?c :: rat) / of_nat (length orders) > 1 / 10)"
    by (auto simp: field_simps)
  have empty: "highRisk (stats []) = False"
    by (simp add: stats_def Let_def num_gt_def)
  show ?thesis using tot canc cnt pend risk ratio empty by simp
qed

section \<open>Properties of the store health loader\<close>

lemma filter_opt_all_true:
  "(\<And>x. x \<in> set xs \<Longrightarrow> p x = Some True) \<Longrightarrow> filter_opt p xs = Some xs"
  by (induction xs) simp_all

lemma filter_opt_all_false:
  "(\<And>x. x \<in> set xs \<Longrightarrow> p x = Some False) \<Longrightarrow> filter_opt p xs = Some []"
  by (induction xs) simp_all

lemma get_prop_missing: "has_no_prop k c \<Longrightarrow> get_prop c k = Some JUndefined"
  by (cases c) (simp_all add: has_no_prop_def)

lemma get_prop_object: "has_no_prop k c \<Longrightarrow> \<exists>v. get_prop c k' = Some v"
  by (cases c) (simp_all add: has_no_prop_def)

lemma get_prop_truthy: "truthy v \<Longrightarrow> \<exists>x. get_prop v k = Some x"
  by (cases v) simp_all

lemma spent_of_missing:
  "has_no_prop ''totalSpent'' c \<Longrightarrow> parseFloat h (JNum (Num 0)) = Num 0 \<Longrightarrow>
   spent_of h c = Some (Num 0)"
  by (simp add: spent_of_def get_prop_missing opt_prop_def js_or_def)

lemma totalSpentSum_missing:
  "list_all (has_no_prop ''totalSpent'') cs \<Longrightarrow> parseFloat h (JNum (Num 0)) = Num 0 \<Longrightarrow>
   totalSpentSum_from h (Num 0) cs = Some (Num 0)"
  by (induction cs) (simp_all add: spent_of_missing)

lemma avgSpent_missing:
  "list_all (has_no_prop ''totalSpent'') cs \<Longrightarrow> parseFloat h (JNum (Num 0)) = Num 0 \<Longrightarrow>
   avgSpent h cs = Some (Num 0)"
  by (simp add: avgSpent_def totalSpentSum_def totalSpentSum_missing)

text \<open>
  C1.  The claim: the at-risk high-value list holds exactly the customers that have a
  last order, have spent more than the batch average, and whose last order is more
  than 60 days old.  The code reads the amount from the property \<^verbatim>\<open>totalSpent\<close>, while
  the query of the same loader selects \<^verbatim>\<open>amountSpent\<close>.  On every batch of nodes without
  a property \<^verbatim>\<open>totalSpent\<close>, which is every batch the query returns, each amount is
  read as 0, the average is 0, no amount is above it, and the list is empty whatever
  the customers have spent (\<^verbatim>\<open>parseFloat(0)\<close> is 0 in JavaScript).
\<close>

theorem atRiskHighValue_without_totalSpent:
  assumes "list_all (has_no_prop ''totalSpent'') customers"
    and "parseFloat h (JNum (Num 0)) = Num 0"
  shows "atRiskHighValue h now customers = Some []"
proof -
  have "(do { lo \<leftarrow> get_prop c ''lastOrder'';
              if \<not> truthy lo then Some False
              else do { spent \<leftarrow> spent_of h c;
                        p \<leftarrow> get_prop lo ''processedAt'';
                        Some (num_gt spent (Num 0) \<and> num_lt (Date h p) (days_ago now 60)) } })
        = Some False" if "c \<in> set customers" for c
  proof -
    from that assms have c: "has_no_prop ''totalSpent'' c" by (simp add: list_all_iff)
    then obtain lo where lo: "get_prop c ''lastOrder'' = Some lo"
      using get_prop_object by blast
    show ?thesis
    proof (cases "truthy lo")
      case True
      then obtain p where "get_prop lo ''processedAt'' = Some p"
        using get_prop_truthy by blast
      with True lo c assms(2) show ?thesis
        by (simp add: spent_of_missing num_gt_def)
    next
      case False
      with lo show ?thesis by simp
    qed
  qed
  then show ?thesis
    using assms by (simp add: atRiskHighValue_def avgSpent_missing filter_opt_all_false)
qed

text \<open>
  The batch of the example: Ada has spent 1000.0 and ordered last on 2020-01-01, Bob
  has spent 0.0 and never ordered; the average is 500 and the clock reads 2024-01-01.
  Ada is above the average and inactive for more than 60 days, and the list is empty.
  The last three facts read the amounts and the timestamp where the query put them.
\<close>

theorem atRiskHighValue_without_totalSpent_witness:
  "list_all (has_no_prop ''totalSpent'') [big_spender, newcomer] \<and>
   parseFloat sample_host (JNum (Num 0)) = Num 0 \<and>
   atRiskHighValue sample_host 1704067200000 [big_spender, newcomer] = Some [] \<and>
   parseFloat sample_host (opt_prop (opt_prop big_spender ''amountSpent'') ''amount'') = Num 1000 \<and>
   parseFloat sample_host (opt_prop (opt_prop newcomer ''amountSpent'') ''amount'') = Num 0 \<and>
   num_lt (Date sample_host (opt_prop (opt_prop big_spender ''lastOrder'') ''processedAt''))
     (days_ago 1704067200000 60)"
proof -
  have a: "list_all (has_no_prop ''totalSpent'') [big_spender, newcomer]"
    by (simp add: has_no_prop_def big_spender_def newcomer_def customer_node_def)
  have b: "parseFloat sample_host (JNum (Num 0)) = Num 0"
    by (simp add: sample_host_def)
  have ada: "parseFloat sample_host (opt_prop (opt_prop big_spender ''amountSpent'') ''amount'') =
      Num 1000"
    by code_simp
  have bob: "parseFloat sample_host (opt_prop (opt_prop newcomer ''amountSpent'') ''amount'') =
      Num 0"
    by code_simp
  have old: "num_lt (Date sample_host (opt_prop (opt_prop big_spender ''lastOrder'') ''processedAt''))
      (days_ago 1704067200000 60)"
    by code_simp
  show ?thesis
    using a b ada bob old atRiskHighValue_without_totalSpent [OF a b, of 1704067200000] by simp
qed

text \<open>
  C2.  The claim: the missing-email metric is the number of customers whose email is
  absent or empty.  The code tests the property \<^verbatim>\<open>email\<close>, while the query of the same
  loader selects \<^verbatim>\<open>defaultEmailAddress { emailAddress }\<close>.  On every batch of nodes without
  a property \<^verbatim>\<open>email\<close>, which is every batch the query returns, the metric is the size
  of the batch whatever the addresses are.
\<close>

theorem customersNoEmail_without_email:
  assumes "list_all (has_no_prop ''email'') customers"
  shows "customersNoEmail customers = Some (length customers)"
proof -
  have "(do { e \<leftarrow> get_prop c ''email''; Some (\<not> truthy e \<or> e = JStr []) }) = Some True"
    if "c \<in> set customers" for c
    using that assms by (simp add: list_all_iff get_prop_missing)
  then show ?thesis
    by (simp add: customersNoEmail_def filter_opt_all_true)
qed

text \<open>
  Ada and Bob both have an email address, where the query put it, and both are counted.
\<close>

theorem customersNoEmail_without_email_witness:
  "list_all (has_no_prop ''email'') [big_spender, newcomer] \<and>
   customersNoEmail [big_spender, newcomer] = Some 2 \<and>
   opt_prop (opt_prop big_spender ''defaultEmailAddress'') ''emailAddress'' =
     JStr ''ada@example.com'' \<and>
   opt_prop (opt_prop newcomer ''defaultEmailAddress'') ''emailAddress'' =
     JStr ''bob@example.com''"
proof -
  have a: "list_all (has_no_prop ''email'') [big_spender, newcomer]"
    by (simp add: has_no_prop_def big_spender_def newcomer_def customer_node_def)
  have ada: "opt_prop (opt_prop big_spender ''defaultEmailAddress'') ''emailAddress'' =
     JStr ''ada@example.com''"
    by code_simp
  have bob: "opt_prop (opt_prop newcomer ''defaultEmailAddress'') ''emailAddress'' =
     JStr ''bob@example.com''"
    by code_simp
  show ?thesis
    using a ada bob customersNoEmail_without_email [OF a] by simp
qed

lemma refundHeavy_row_refunder: "refundHeavy_row h refunder = None"
  by (simp add: refundHeavy_row_def refunder_def customer_node_def node_name_def
      count_recent_def array_filter_def method_includes_def)

lemma refundHeavyCustomers_refunder: "refundHeavyCustomers [refunder] = Some [refunder]"
  by (simp add: refundHeavyCustomers_def refunder_def customer_node_def
      count_recent_def array_filter_def)

text \<open>
  C5.  The claim: no operation raises on a record whose optional fields are absent.
  Cy has three recent orders, two REFUNDED and one without a financial status.  The
  segment test compares the status with \<^verbatim>\<open>===\<close> and counts two refunds, so Cy is
  refund-heavy; the row of the list then calls \<^verbatim>\<open>includes\<close> on the missing status and
  the loader raises a \<^verbatim>\<open>TypeError\<close>, whatever the runtime, the clock and the orders are.
\<close>

theorem loader_raises_on_missing_status: "loader h e [refunder] orders = None"
  by (simp add: loader_def refundHeavyCustomers_refunder refundHeavy_row_refunder Let_def
      split: Option.bind_splits)

text \<open>
  C6.  The claim: two invocations on the same batch and query give the same rows and
  the same metrics.  The loader of the store health page starts with \<^verbatim>\<open>new Date()\<close>
  and cuts its windows of 7, 14, 30, 60 and 90 days back from that instant, so its
  metrics change with the time of the invocation: the same single order, processed on
  2024-01-01, counts as an order of the last 7 days on 2024-01-02 and no longer on
  2024-07-01.
\<close>

theorem loader_depends_on_clock:
  "loader sample_host \<lparr>clock = 1704153600000\<rparr> [] [recent_order] \<noteq>
   loader sample_host \<lparr>clock = 1719792000000\<rparr> [] [recent_order]"
  by code_simp

lemma only_new_arrays_refl: "only_new_arrays w w"
  by (simp add: only_new_arrays_def)

lemma only_new_arrays_trans:
  "only_new_arrays w w1 \<Longrightarrow> only_new_arrays w1 w2 \<Longrightarrow> only_new_arrays w w2"
  by (auto simp: only_new_arrays_def)

lemma ref_filter_spec:
  assumes "ref_filter p r w = (f, w')" and "r < fresh w"
  shows "arrays w' f = filter p (arrays w r)" "only_new_arrays w w'" "f < fresh w'" "fresh w \<le> f"
  using assms by (auto simp: ref_filter_def new_array_def only_new_arrays_def)

lemma ref_sort_spec:
  assumes "fresh w0 \<le> r"
  shows "arrays (ref_sort f c r w) r = f c (arrays w r)"
    "only_new_arrays w0 w \<Longrightarrow> only_new_arrays w0 (ref_sort f c r w)"
    "fresh (ref_sort f c r w) = fresh w"
  using assms by (auto simp: ref_sort_def only_new_arrays_def)

lemma filteredOrders_run_spec:
  assumes "filteredOrders_run sortFn h orders q w = (rows, w')" and "orders < fresh w"
  shows "arrays w' rows =
      (case sortSelected q of
         [] \<Rightarrow> filter (order_visible h q) (arrays w orders)
       | s # ss \<Rightarrow>
           sortFn (\<lambda>a b. compare_values (sort_direction_of s)
                     (order_sort_value h (sort_key_of s) a)
                     (order_sort_value h (sort_key_of s) b))
             (filter (order_visible h q) (arrays w orders)))"
    "only_new_arrays w w'" "rows < fresh w'"
proof -
  obtain f w1 where f: "ref_filter (order_visible h q) orders w = (f, w1)"
    by (cases "ref_filter (order_visible h q) orders w")
  note spec = ref_filter_spec [OF f assms(2)]
  show "arrays w' rows =
      (case sortSelected q of
         [] \<Rightarrow> filter (order_visible h q) (arrays w orders)
       | s # ss \<Rightarrow>
           sortFn (\<lambda>a b. compare_values (sort_direction_of s)
                     (order_sort_value h (sort_key_of s) a)
                     (order_sort_value h (sort_key_of s) b))
             (filter (order_visible h q) (arrays w orders)))"
    using assms(1) f spec ref_sort_spec(1) [OF spec(4)]
    by (auto simp: filteredOrders_run_def split: list.splits)
  show "only_new_arrays w w'"
    using assms(1) f spec ref_sort_spec(2) [OF spec(4) spec(2)]
    by (auto simp: filteredOrders_run_def split: list.splits)
  show "rows < fresh w'"
    using assms(1) f spec ref_sort_spec(3) [OF spec(4)]
    by (auto simp: filteredOrders_run_def split: list.splits)
qed

lemma filteredCustomers_run_spec:
  assumes "filteredCustomers_run sortFn h customers q w = (rows, w')"
    and "customers < fresh w"
  shows "arrays w' rows =
      (case sortSelected q of
         [] \<Rightarrow> filter (customer_visible h q) (arrays w customers)
       | s # ss \<Rightarrow>
           sortFn (\<lambda>a b. compare_values (sort_direction_of s)
                     (customer_sort_value h (sort_key_of s) a)
                     (customer_sort_value h (sort_key_of s) b))
             (filter (customer_visible h q) (arrays w customers)))"
    "only_new_arrays w w'" "rows < fresh w'"
proof -
  obtain f w1 where f: "ref_filter (customer_visible h q) customers w = (f, w1)"
    by (cases "ref_filter (customer_visible h q) customers w")
  note spec = ref_filter_spec [OF f assms(2)]
  show "arrays w' rows =
      (case sortSelected q of
         [] \<Rightarrow> filter (customer_visible h q) (arrays w customers)
       | s # ss \<Rightarrow>
           sortFn (\<lambda>a b. compare_values (sort_direction_of s)
                     (customer_sort_value h (sort_key_of s) a)
                     (customer_sort_value h (sort_key_of s) b))
             (filter (customer_visible h q) (arrays w customers)))"
    using assms(1) f spec ref_sort_spec(1) [OF spec(4)]
    by (auto simp: filteredCustomers_run_def split: list.splits)
  show "only_new_arrays w w'"
    using assms(1) f spec ref_sort_spec(2) [OF spec(4) spec(2)]
    by (auto simp: filteredCustomers_run_def split: list.splits)
  show "rows < fresh w'"
    using assms(1) f spec ref_sort_spec(3) [OF spec(4)]
    by (auto simp: filteredCustomers_run_def split: list.splits)
qed

text \<open>With the stable sort of the lists above, the runs give the lists above.\<close>

lemma filteredOrders_run_array_sort:
  assumes "filteredOrders_run array_sort h orders q w = (rows, w')" and "orders < fresh w"
  shows "arrays w' rows = filteredOrders h (arrays w orders) q"
  unfolding filteredOrders_run_spec(1) [OF assms] by (simp add: filteredOrders_def Let_def)

lemma filteredCustomers_run_array_sort:
  assumes "filteredCustomers_run array_sort h customers q w = (rows, w')"
    and "customers < fresh w"
  shows "arrays w' rows = filteredCustomers h (arrays w customers) q"
  unfolding filteredCustomers_run_spec(1) [OF assms] by (simp add: filteredCustomers_def Let_def)

lemma stats_run_spec:
  assumes "stats_run orders w = (cards, w')" and "orders < fresh w"
  shows "cards = stats (arrays w orders)" "only_new_arrays w w'"
proof -
  obtain c w1 where c: "ref_filter is_cancelled orders w = (c, w1)"
    by (cases "ref_filter is_cancelled orders w")
  note one = ref_filter_spec [OF c assms(2)]
  from one(2) assms(2) have kept: "arrays w1 orders = arrays w orders" "orders < fresh w1"
    by (auto simp: only_new_arrays_def)
  obtain p w2 where p:
    "ref_filter (\<lambda>o'. displayFinancialStatus o' = Some ''PENDING'') orders w1 = (p, w2)"
    by (cases "ref_filter (\<lambda>o'. displayFinancialStatus o' = Some ''PENDING'') orders w1")
  note two = ref_filter_spec [OF p kept(2)]
  from assms(1) c p have res:
    "cards = \<lparr>total_count = ref_length orders w, cancelled = ref_length c w1,
              pending = ref_length p w2,
              highRisk = num_gt (num_div (Num (of_nat (ref_length c w1)))
                                         (Num (of_nat (ref_length orders w)))) (Num (1 / 10))\<rparr>"
    and w': "w' = w2"
    by (auto simp: stats_run_def Let_def simp del: num_div.simps)
  show "cards = stats (arrays w orders)"
    unfolding res by (simp add: stats_def Let_def ref_length_def one(1) two(1) kept(1))
  show "only_new_arrays w w'"
    unfolding w' using one(2) two(2) by (rule only_new_arrays_trans)
qed

lemma Order_run_spec:
  assumes "Order_run sortFn h orders q w = ((rows, cards), w')" and "orders < fresh w"
  shows "arrays w' rows =
      (case sortSelected q of
         [] \<Rightarrow> filter (order_visible h q) (arrays w orders)
       | s # ss \<Rightarrow>
           sortFn (\<lambda>a b. compare_values (sort_direction_of s)
                     (order_sort_value h (sort_key_of s) a)
                     (order_sort_value h (sort_key_of s) b))
             (filter (order_visible h q) (arrays w orders)))"
    "cards = stats (arrays w orders)" "only_new_arrays w w'"
    "arrays w' orders = arrays w orders"
proof -
  obtain r w1 where r: "filteredOrders_run sortFn h orders q w = (r, w1)"
    by (cases "filteredOrders_run sortFn h orders q w")
  note one = filteredOrders_run_spec [OF r assms(2)]
  from one(2) assms(2) have kept: "arrays w1 orders = arrays w orders" "orders < fresh w1"
    by (auto simp: only_new_arrays_def)
  obtain c w2 where c: "stats_run orders w1 = (c, w2)"
    by (cases "stats_run orders w1")
  note two = stats_run_spec [OF c kept(2)]
  from assms(1) r c have res: "rows = r" "cards = c" "w' = w2"
    by (auto simp: Order_run_def)
  from two(2) one(3) have "arrays w2 r = arrays w1 r"
    by (simp add: only_new_arrays_def)
  with one(1) show "arrays w' rows =
      (case sortSelected q of
         [] \<Rightarrow> filter (order_visible h q) (arrays w orders)
       | s # ss \<Rightarrow>
           sortFn (\<lambda>a b. compare_values (sort_direction_of s)
                     (order_sort_value h (sort_key_of s) a)
                     (order_sort_value h (sort_key_of s) b))
             (filter (order_visible h q) (arrays w orders)))"
    by (simp add: res)
  show "cards = stats (arrays w orders)"
    using two(1) kept(1) by (simp add: res)
  show all: "only_new_arrays w w'"
    unfolding res using one(2) two(2) by (rule only_new_arrays_trans)
  show "arrays w' orders = arrays w orders"
    using all assms(2) by (simp add: only_new_arrays_def)
qed

lemma Customer_run_spec:
  assumes "Customer_run sortFn h customers q w = ((rows, n, m, avg), w')"
    and "customers < fresh w"
  shows "arrays w' rows =
      (case sortSelected q of
         [] \<Rightarrow> filter (customer_visible h q) (arrays w customers)
       | s # ss \<Rightarrow>
           sortFn (\<lambda>a b. compare_values (sort_direction_of s)
                     (customer_sort_value h (sort_key_of s) a)
                     (customer_sort_value h (sort_key_of s) b))
             (filter (customer_visible h q) (arrays w customers)))"
    "n = length (arrays w customers)"
    "m = length (arrays w' rows)"
    "avg = averageOrders h (arrays w customers)"
    "only_new_arrays w w'"
    "arrays w' customers = arrays w customers"
proof -
  obtain r w1 where r: "filteredCustomers_run sortFn h customers q w = (r, w1)"
    by (cases "filteredCustomers_run sortFn h customers q w")
  note one = filteredCustomers_run_spec [OF r assms(2)]
  from one(2) assms(2) have kept: "arrays w1 customers = arrays w customers"
    by (auto simp: only_new_arrays_def)
  from assms(1) r have res: "rows = r" "w' = w1" "n = ref_length customers w1"
    "m = ref_length r w1" "avg = averageOrders h (arrays w1 customers)"
    by (auto simp: Customer_run_def)
  show "arrays w' rows =
      (case sortSelected q of
         [] \<Rightarrow> filter (customer_visible h q) (arrays w customers)
       | s # ss \<Rightarrow>
           sortFn (\<lambda>a b. compare_values (sort_direction_of s)
                     (customer_sort_value h (sort_key_of s) a)
                     (customer_sort_value h (sort_key_of s) b))
             (filter (customer_visible h q) (arrays w customers)))"
    using one(1) by (simp add: res)
  show "n = length (arrays w customers)" by (simp add: res ref_length_def kept)
  show "m = length (arrays w' rows)" by (simp add: res ref_length_def)
  show "avg = averageOrders h (arrays w customers)" by (simp add: res kept)
  show "only_new_arrays w w'" using one(2) by (simp add: res)
  show "arrays w' customers = arrays w customers" by (simp add: res kept)
qed

lemma filter_opt_None_iff: "filter_opt p xs = None \<longleftrightarrow> (\<exists>x\<in>set xs. p x = None)"
  by (induction xs) (auto split: Option.bind_splits)

lemma filter_opt_Some_set:
  "filter_opt p xs = Some ys \<Longrightarrow> y \<in> set ys \<Longrightarrow> y \<in> set xs \<and> p y = Some True"
  by (induction xs arbitrary: ys) (auto split: Option.bind_splits if_splits)

lemma map_opt_None_iff: "map_opt f xs = None \<longleftrightarrow> (\<exists>x\<in>set xs. f x = None)"
  by (induction xs) (auto split: Option.bind_splits)

lemma get_prop_any: "get_prop c k = Some v \<Longrightarrow> \<exists>v'. get_prop c k' = Some v'"
  by (cases c) simp_all

lemma ordersLast7d_defined:
  "ordersLast7d h n os = None \<longleftrightarrow> (\<exists>x\<in>set os. get_prop x ''processedAt'' = None)"
  by (auto simp: ordersLast7d_def filter_opt_None_iff split: Option.bind_splits)

lemma ordersPrev7d_defined:
  "ordersPrev7d h n os = None \<longleftrightarrow> (\<exists>x\<in>set os. get_prop x ''processedAt'' = None)"
  by (auto simp: ordersPrev7d_def filter_opt_None_iff Let_def split: Option.bind_splits)

lemma cancelled30d_defined:
  "cancelled30d h n os = None \<longleftrightarrow> (\<exists>x\<in>set os. get_prop x ''processedAt'' = None)"
proof -
  have "(do { p \<leftarrow> get_prop x ''processedAt'';
              let d = Date h p;
              st \<leftarrow> get_prop x ''displayFinancialStatus'';
              ca \<leftarrow> get_prop x ''cancelledAt'';
              Some (num_ge d (days_ago n 30) \<and>
                    (st = JStr ''REFUNDED'' \<or> st = JStr ''VOIDED'' \<or> truthy ca)) } = None)
        = (get_prop x ''processedAt'' = None)" for x
    by (cases x) (simp_all add: Let_def)
  then show ?thesis
    by (simp add: cancelled30d_def filter_opt_None_iff)
qed

lemma inactiveCustomers90_defined:
  "inactiveCustomers90 h n cs = None \<longleftrightarrow> (\<exists>x\<in>set cs. get_prop x ''lastOrder'' = None)"
proof -
  have "(do { lo \<leftarrow> get_prop x ''lastOrder'';
              if \<not> truthy lo then Some True
              else do { p \<leftarrow> get_prop lo ''processedAt'';
                        Some (num_lt (Date h p) (days_ago n 90)) } } = None)
        = (get_prop x ''lastOrder'' = None)" for x
  proof (cases "get_prop x ''lastOrder''")
    case None
    then show ?thesis by simp
  next
    case (Some lo)
    then show ?thesis
      using get_prop_truthy [of lo "''processedAt''"] by (auto split: Option.bind_splits)
  qed
  then show ?thesis
    by (simp add: inactiveCustomers90_def filter_opt_None_iff)
qed

lemma atRiskHighValue_defined:
  "atRiskHighValue h n cs = None \<longleftrightarrow>
   avgSpent h cs = None \<or> (\<exists>x\<in>set cs. get_prop x ''lastOrder'' = None)"
proof -
  have "(do { lo \<leftarrow> get_prop x ''lastOrder'';
              if \<not> truthy lo then Some False
              else do { spent \<leftarrow> spent_of h x;
                        p \<leftarrow> get_prop lo ''processedAt'';
                        Some (num_gt spent avg \<and> num_lt (Date h p) (days_ago n 60)) } } = None)
        = (get_prop x ''lastOrder'' = None)" for x avg
  proof (cases "get_prop x ''lastOrder''")
    case None
    then show ?thesis by simp
  next
    case (Some lo)
    then obtain ts where "get_prop x ''totalSpent'' = Some ts" using get_prop_any by blast
    then have "spent_of h x \<noteq> None" by (simp add: spent_of_def)
    with Some show ?thesis
      using get_prop_truthy [of lo "''processedAt''"] by (auto split: Option.bind_splits)
  qed
  then show ?thesis
    by (auto simp: atRiskHighValue_def filter_opt_None_iff split: Option.bind_splits)
qed

lemma atRiskHighValue_row_defined:
  assumes "atRiskHighValue h n cs = Some xs" and "x \<in> set xs"
  shows "atRiskHighValue_row h x \<noteq> None"
proof -
  from assms(1) obtain avg where
    "filter_opt
       (\<lambda>c. do { lo \<leftarrow> get_prop c ''lastOrder'';
                 if \<not> truthy lo then Some False
                 else do { spent \<leftarrow> spent_of h c;
                           p \<leftarrow> get_prop lo ''processedAt'';
                           Some (num_gt spent avg \<and> num_lt (Date h p) (days_ago n 60)) } })
       cs = Some xs"
    by (auto simp: atRiskHighValue_def split: Option.bind_splits)
  from filter_opt_Some_set [OF this assms(2)]
  obtain lo where lo: "get_prop x ''lastOrder'' = Some lo" "truthy lo"
    by (auto split: Option.bind_splits if_splits)
  from lo(2) obtain p where p: "get_prop lo ''processedAt'' = Some p"
    using get_prop_truthy by blast
  obtain i where i: "get_prop x ''id'' = Some i" using get_prop_any [OF lo(1)] by blast
  obtain f where f: "get_prop x ''firstName'' = Some f" using get_prop_any [OF lo(1)] by blast
  obtain l where l: "get_prop x ''lastName'' = Some l" using get_prop_any [OF lo(1)] by blast
  obtain ts where ts: "get_prop x ''totalSpent'' = Some ts"
    using get_prop_any [OF lo(1)] by blast
  note i f l ts
  with lo p show ?thesis
    by (simp add: atRiskHighValue_row_def node_name_def)
qed

lemma atRiskHighValue_rows_defined:
  "atRiskHighValue h n cs = Some xs \<Longrightarrow> \<exists>rows. map_opt (atRiskHighValue_row h) xs = Some rows"
proof (cases "map_opt (atRiskHighValue_row h) xs")
  case None
  assume a: "atRiskHighValue h n cs = Some xs"
  from None obtain x where "x \<in> set xs" "atRiskHighValue_row h x = None"
    by (auto simp: map_opt_None_iff)
  with atRiskHighValue_row_defined [OF a] show ?thesis by blast
next
  case (Some rows)
  then show ?thesis by blast
qed

lemma timeless_loader_defined:
  assumes "ordersLast7d h (clock e) os = Some l" "ordersPrev7d h (clock e) os = Some p"
    "cancelled30d h (clock e) os = Some c" "inactiveCustomers90 h (clock e) cs = Some i"
    "atRiskHighValue h (clock e) cs = Some a"
  shows "timeless (loader h e cs os) = timeless_part h cs"
proof -
  obtain rows where rows: "map_opt (atRiskHighValue_row h) a = Some rows"
    using atRiskHighValue_rows_defined [OF assms(5)] by blast
  show ?thesis
    by (simp add: loader_def assms rows Let_def timeless_def timeless_part_def opt_prop_def
        split: Option.bind_split)
qed

lemma timeless_loader_undefined:
  assumes "ordersLast7d h (clock e) os = None \<or> ordersPrev7d h (clock e) os = None \<or>
    cancelled30d h (clock e) os = None \<or> inactiveCustomers90 h (clock e) cs = None \<or>
    atRiskHighValue h (clock e) cs = None"
  shows "loader h e cs os = None"
  using assms by (auto simp: loader_def Let_def split: Option.bind_splits)

lemma timeless_loader: "timeless (loader h e cs os) = timeless (loader h e' cs os)"
proof (cases "ordersLast7d h (clock e) os = None \<or> ordersPrev7d h (clock e) os = None \<or>
    cancelled30d h (clock e) os = None \<or> inactiveCustomers90 h (clock e) cs = None \<or>
    atRiskHighValue h (clock e) cs = None")
  case True
  then have "ordersLast7d h (clock e') os = None \<or> ordersPrev7d h (clock e') os = None \<or>
    cancelled30d h (clock e') os = None \<or> inactiveCustomers90 h (clock e') cs = None \<or>
    atRiskHighValue h (clock e') cs = None"
    by (simp add: ordersLast7d_defined ordersPrev7d_defined cancelled30d_defined
        inactiveCustomers90_defined atRiskHighValue_defined)
  with True show ?thesis by (simp add: timeless_loader_undefined)
next
  case False
  then have "\<not> (ordersLast7d h (clock e') os = None \<or> ordersPrev7d h (clock e') os = None \<or>
    cancelled30d h (clock e') os = None \<or> inactiveCustomers90 h (clock e') cs = None \<or>
    atRiskHighValue h (clock e') cs = None)"
    by (simp add: ordersLast7d_defined ordersPrev7d_defined cancelled30d_defined
        inactiveCustomers90_defined atRiskHighValue_defined)
  with False have "timeless (loader h e cs os) = timeless_part h cs"
    "timeless (loader h e' cs os) = timeless_part h cs"
    by (auto intro!: timeless_loader_defined)
  then show ?thesis by simp
qed

text \<open>
  C6, as the code has it.  Two runs of a list component on arrays with the same
  content, under the same query, end with the same rows and the same cards, whatever
  the two clocks, the I/O performed before, the addresses and the other arrays are, and
  whatever order the sort of the runtime gives for a comparator and a content.  The
  order cards are \<open>stats\<close> of the batch; the customer cards are the length of the
  batch, the number of rows and \<open>averageOrders\<close> of the batch.  A run changes nothing
  that was there: the sort works on the array that \<^verbatim>\<open>filter\<close> has just built, so the
  batch, the clock and the I/O are as before and only new arrays appear.  The store
  health loader gives the same result at the same clock reading, and the part of its
  result that is not cut from a time window, and whether it raises, are the same at any
  two clock readings.
\<close>

theorem same_inputs_same_results:
  assumes "orders < fresh w" and "orders' < fresh w'"
    and "arrays w orders = arrays w' orders'"
    and "customers < fresh v" and "customers' < fresh v'"
    and "arrays v customers = arrays v' customers'"
    and "clock u = clock u'"
  shows
    "(case (Order_run sortFn h orders q w, Order_run sortFn h orders' q w') of
        (((rows, cards), w1), ((rows', cards'), w1')) \<Rightarrow>
          arrays w1 rows = arrays w1' rows' \<and> cards = cards' \<and>
          cards = stats (arrays w orders) \<and>
          arrays w1 orders = arrays w orders \<and> only_new_arrays w w1) \<and>
     (case (Customer_run sortFn' h customers p v, Customer_run sortFn' h customers' p v') of
        (((rows, cards), v1), ((rows', cards'), v1')) \<Rightarrow>
          arrays v1 rows = arrays v1' rows' \<and> cards = cards' \<and>
          cards = (length (arrays v customers), length (arrays v1 rows),
                   averageOrders h (arrays v customers)) \<and>
          arrays v1 customers = arrays v customers \<and> only_new_arrays v v1) \<and>
     loader h u cs os = loader h u' cs os \<and>
     timeless (loader h u cs os) = timeless (loader h t cs os)"
proof (intro conjI)
  obtain rows cards w1 where one: "Order_run sortFn h orders q w = ((rows, cards), w1)"
    by (metis surj_pair)
  obtain rows' cards' w1' where
    two: "Order_run sortFn h orders' q w' = ((rows', cards'), w1')"
    by (metis surj_pair)
  note a = Order_run_spec [OF one assms(1)] and b = Order_run_spec [OF two assms(2)]
  have same: "arrays w1 rows = arrays w1' rows'"
    unfolding a(1) b(1) assms(3) ..
  have cards: "cards = cards'"
    unfolding a(2) b(2) assms(3) ..
  show "case (Order_run sortFn h orders q w, Order_run sortFn h orders' q w') of
        (((rows, cards), w1), ((rows', cards'), w1')) \<Rightarrow>
          arrays w1 rows = arrays w1' rows' \<and> cards = cards' \<and>
          cards = stats (arrays w orders) \<and>
          arrays w1 orders = arrays w orders \<and> only_new_arrays w w1"
    by (simp only: one two prod.case) (intro conjI same cards a(2) a(4) a(3))
next
  obtain rows n m avg v1 where
    one: "Customer_run sortFn' h customers p v = ((rows, n, m, avg), v1)"
    by (metis surj_pair)
  obtain rows' n' m' avg' v1' where
    two: "Customer_run sortFn' h customers' p v' = ((rows', n', m', avg'), v1')"
    by (metis surj_pair)
  note a = Customer_run_spec [OF one assms(4)] and b = Customer_run_spec [OF two assms(5)]
  have same: "arrays v1 rows = arrays v1' rows'"
    unfolding a(1) b(1) assms(6) ..
  have shape: "(n, m, avg) = (length (arrays v customers), length (arrays v1 rows),
      averageOrders h (arrays v customers))"
    using a(2) a(3) a(4) by simp
  have shape': "(n', m', avg') = (length (arrays v customers), length (arrays v1 rows),
      averageOrders h (arrays v customers))"
    using b(2) b(3) b(4) by (simp add: same assms(6))
  have cards: "(n, m, avg) = (n', m', avg')"
    unfolding shape shape' ..
  show "case (Customer_run sortFn' h customers p v, Customer_run sortFn' h customers' p v') of
        (((rows, cards), v1), ((rows', cards'), v1')) \<Rightarrow>
          arrays v1 rows = arrays v1' rows' \<and> cards = cards' \<and>
          cards = (length (arrays v customers), length (arrays v1 rows),
                   averageOrders h (arrays v customers)) \<and>
          arrays v1 customers = arrays v customers \<and> only_new_arrays v v1"
    by (simp only: one two prod.case) (intro conjI same cards shape a(6) a(5))
next
  show "loader h u cs os = loader h u' cs os"
    using assms(7) by (simp add: loader_def)
next
  show "timeless (loader h u cs os) = timeless (loader h t cs os)"
    by (rule timeless_loader)
qed

text \<open>
  The two order runs start at different times, after different I/O and with the batch
  at different addresses.  The sort is the stable one here: the paid orders come out
  by total, the customers by name, and the batches are still in their first order.
\<close>

theorem same_inputs_same_results_witness:
  "((0::nat) < fresh (sample_world 1704153600000 [] 0 four_orders) \<and>
    (1::nat) < fresh (sample_world 1719792000000 [''POST /graphql''] 1 four_orders) \<and>
    arrays (sample_world 1704153600000 [] 0 four_orders) 0 =
      arrays (sample_world 1719792000000 [''POST /graphql''] 1 four_orders) 1 \<and>
    (0::nat) < fresh (sample_world 1704153600000 [] 0 three_customers) \<and>
    (1::nat) < fresh (sample_world 1719792000000 [''POST /graphql''] 1 three_customers) \<and>
    arrays (sample_world 1704153600000 [] 0 three_customers) 0 =
      arrays (sample_world 1719792000000 [''POST /graphql''] 1 three_customers) 1 \<and>
    clock (sample_world 1704153600000 [] 0 [recent_order]) =
      clock (sample_world 1704153600000 [''POST /graphql''] 1 [recent_order])) \<and>
   ((case (Order_run array_sort sample_host 0 (order_sorting ''total asc'')
             (sample_world 1704153600000 [] 0 four_orders),
           Order_run array_sort sample_host 1 (order_sorting ''total asc'')
             (sample_world 1719792000000 [''POST /graphql''] 1 four_orders)) of
       (((rows, cards), w1), ((rows', cards'), w1')) \<Rightarrow>
         arrays w1 rows = arrays w1' rows' \<and> cards = cards' \<and>
         cards = stats (arrays (sample_world 1704153600000 [] 0 four_orders) 0) \<and>
         arrays w1 0 = arrays (sample_world 1704153600000 [] 0 four_orders) 0 \<and>
         only_new_arrays (sample_world 1704153600000 [] 0 four_orders) w1) \<and>
    (case (Customer_run array_sort sample_host 0 (customer_sorting ''name asc'')
             (sample_world 1704153600000 [] 0 three_customers),
           Customer_run array_sort sample_host 1 (customer_sorting ''name asc'')
             (sample_world 1719792000000 [''POST /graphql''] 1 three_customers)) of
       (((rows, cards), v1), ((rows', cards'), v1')) \<Rightarrow>
         arrays v1 rows = arrays v1' rows' \<and> cards = cards' \<and>
         cards = (length (arrays (sample_world 1704153600000 [] 0 three_customers) 0),
                  length (arrays v1 rows),
                  averageOrders sample_host
                    (arrays (sample_world 1704153600000 [] 0 three_customers) 0)) \<and>
         arrays v1 0 = arrays (sample_world 1704153600000 [] 0 three_customers) 0 \<and>
         only_new_arrays (sample_world 1704153600000 [] 0 three_customers) v1) \<and>
    loader sample_host (sample_world 1704153600000 [] 0 [recent_order])
        [big_spender, newcomer] [recent_order] =
      loader sample_host (sample_world 1704153600000 [''POST /graphql''] 1 [recent_order])
        [big_spender, newcomer] [recent_order] \<and>
    timeless (loader sample_host (sample_world 1704153600000 [] 0 [recent_order])
        [big_spender, newcomer] [recent_order]) =
      timeless (loader sample_host (sample_world 1719792000000 [] 0 [recent_order])
        [big_spender, newcomer] [recent_order])) \<and>
   (case Order_run array_sort sample_host 0 (order_sorting ''total asc'')
           (sample_world 1704153600000 [] 0 four_orders) of
      ((rows, cards), w1) \<Rightarrow>
        map name (arrays w1 rows) = [''#1003'', ''#1001'', ''#1004''] \<and>
        map name (arrays w1 0) = [''#1004'', ''#1003'', ''#1002'', ''#1001''] \<and>
        total_count cards = 4 \<and> pending cards = 1 \<and>
        clock w1 = 1704153600000 \<and> io w1 = []) \<and>
   (case Customer_run array_sort sample_host 0 (customer_sorting ''name asc'')
           (sample_world 1704153600000 [] 0 three_customers) of
      ((rows, n, m, avg), v1) \<Rightarrow>
        map numberOfOrders (arrays v1 rows) = [3, 0, 1] \<and>
        map numberOfOrders (arrays v1 0) = [3, 1, 0] \<and> n = 3 \<and> m = 3)"
proof -
  have given:
    "(0::nat) < fresh (sample_world 1704153600000 [] 0 four_orders)"
    "(1::nat) < fresh (sample_world 1719792000000 [''POST /graphql''] 1 four_orders)"
    "arrays (sample_world 1704153600000 [] 0 four_orders) 0 =
      arrays (sample_world 1719792000000 [''POST /graphql''] 1 four_orders) 1"
    "(0::nat) < fresh (sample_world 1704153600000 [] 0 three_customers)"
    "(1::nat) < fresh (sample_world 1719792000000 [''POST /graphql''] 1 three_customers)"
    "arrays (sample_world 1704153600000 [] 0 three_customers) 0 =
      arrays (sample_world 1719792000000 [''POST /graphql''] 1 three_customers) 1"
    "clock (sample_world 1704153600000 [] 0 [recent_order]) =
      clock (sample_world 1704153600000 [''POST /graphql''] 1 [recent_order])"
    by (simp_all add: sample_world_def)
  have orders:
    "case Order_run array_sort sample_host 0 (order_sorting ''total asc'')
           (sample_world 1704153600000 [] 0 four_orders) of
      ((rows, cards), w1) \<Rightarrow>
        map name (arrays w1 rows) = [''#1003'', ''#1001'', ''#1004''] \<and>
        map name (arrays w1 0) = [''#1004'', ''#1003'', ''#1002'', ''#1001''] \<and>
        total_count cards = 4 \<and> pending cards = 1 \<and>
        clock w1 = 1704153600000 \<and> io w1 = []"
    by code_simp
  have customers:
    "case Customer_run array_sort sample_host 0 (customer_sorting ''name asc'')
           (sample_world 1704153600000 [] 0 three_customers) of
      ((rows, n, m, avg), v1) \<Rightarrow>
        map numberOfOrders (arrays v1 rows) = [3, 0, 1] \<and>
        map numberOfOrders (arrays v1 0) = [3, 1, 0] \<and> n = 3 \<and> m = 3"
    by code_simp
  note runs = same_inputs_same_results [OF given, where sortFn = array_sort
      and sortFn' = array_sort and h = sample_host
      and q = "order_sorting ''total asc''" and p = "customer_sorting ''name asc''"
      and cs = "[big_spender, newcomer]" and os = "[recent_order]"
      and t = "sample_world 1719792000000 [] 0 [recent_order]"]
  show ?thesis
    by (intro conjI given runs [THEN conjunct1] runs [THEN conjunct2, THEN conjunct1]
        runs [THEN conjunct2, THEN conjunct2, THEN conjunct1]
        runs [THEN conjunct2, THEN conjunct2, THEN conjunct2] orders customers)
qed

section \<open>Properties of the two lists\<close>

text \<open>
  C3.  For a fixed batch, the cards do not depend on the query: the four order cards
  are computed from the batch alone, and so are the customer count and the average
  number of orders.  (The segment counts of the store health page belong to a loader
  that takes no query.  The card \<^verbatim>\<open>Filtered Count\<close> of the customer list is the number
  of visible rows, not a metric of the batch.)
\<close>

theorem cards_ignore_query:
  "order_cards (Order h orders q1) = order_cards (Order h orders q2) \<and>
   totalCustomers (Customer h customers p1) = totalCustomers (Customer h customers p2) \<and>
   averageOrdersCard (Customer h customers p1) = averageOrdersCard (Customer h customers p2)"
  by (simp add: Order_def Customer_def)

text \<open>
  C7.  With the last-order-before filter set to a valid date, a customer whose last
  order (if any) carries a valid timestamp is visible exactly when it passes the other
  filters and either has no last order or has its last order at or before that date.
\<close>

theorem last_order_before:
  assumes "lastOrderDateFilter q \<noteq> []"
    and "Date h (JStr (lastOrderDateFilter q)) = Num f"
    and "\<And>lo. lastOrder c = Some lo \<Longrightarrow>
           processedAt lo \<noteq> [] \<and> (\<exists>t. Date h (JStr (processedAt lo)) = Num t)"
  shows "customer_visible h q c =
         (customer_visible h (q\<lparr>lastOrderDateFilter := []\<rparr>) c \<and>
          (case lastOrder c of
             None \<Rightarrow> True
           | Some lo \<Rightarrow> \<exists>t. Date h (JStr (processedAt lo)) = Num t \<and> t \<le> f))"
proof (cases "lastOrder c")
  case None
  with assms(1) show ?thesis by (simp add: customer_visible_def Let_def)
next
  case (Some lo)
  with assms(3) obtain t where "processedAt lo \<noteq> []" "Date h (JStr (processedAt lo)) = Num t"
    by blast
  with Some assms(1,2) show ?thesis
    by (auto simp: customer_visible_def Let_def num_gt_def)
qed

lemma sample_Date_june: "Date sample_host (JStr ''2024-06-01'') = Num 1717200000000"
  by (simp add: sample_host_def iso_dates_def)

lemma sample_Date_january: "Date sample_host (JStr ''2024-01-10T00:00:00Z'') = Num 1704844800000"
  by (simp add: sample_host_def iso_dates_def)

lemma sample_Date_july: "Date sample_host (JStr ''2024-07-01T00:00:00Z'') = Num 1719792000000"
  by (simp add: sample_host_def iso_dates_def)

lemma sample_customer_sel:
  "lastOrder (sample_customer f l n lo cr) = lo"
  "numberOfOrders (sample_customer f l n lo cr) = n"
  by (simp_all add: sample_customer_def)

lemma visible_without_filters:
  "customer_visible sample_host (customer_filters [] []) (sample_customer f l n lo cr)"
  by (simp add: customer_visible_def customer_filters_def sample_host_def ascii_lower_def)

theorem last_order_before_witness:
  "lastOrderDateFilter (customer_filters [] ''2024-06-01'') \<noteq> [] \<and>
   Date sample_host (JStr (lastOrderDateFilter (customer_filters [] ''2024-06-01''))) =
     Num 1717200000000 \<and>
   customer_visible sample_host (customer_filters [] ''2024-06-01'') three_orders \<and>
   customer_visible sample_host (customer_filters [] ''2024-06-01'') ordered_in_january \<and>
   \<not> customer_visible sample_host (customer_filters [] ''2024-06-01'') ordered_in_july"
proof -
  let ?q = "customer_filters [] ''2024-06-01''"
  have active: "lastOrderDateFilter ?q \<noteq> []" by (simp add: customer_filters_def)
  have bound: "Date sample_host (JStr (lastOrderDateFilter ?q)) = Num 1717200000000"
    by (simp add: customer_filters_def sample_Date_june)
  have rest: "?q\<lparr>lastOrderDateFilter := []\<rparr> = customer_filters [] []"
    by (simp add: customer_filters_def)
  have none: "customer_visible sample_host ?q three_orders"
    using last_order_before [OF active bound, of three_orders]
    by (simp add: rest three_orders_def visible_without_filters sample_customer_sel)
  have jan: "customer_visible sample_host ?q ordered_in_january"
    using last_order_before [OF active bound, of ordered_in_january]
    by (simp add: rest ordered_in_january_def visible_without_filters sample_customer_sel
        sample_Date_january)
  have jul: "\<not> customer_visible sample_host ?q ordered_in_july"
    using last_order_before [OF active bound, of ordered_in_july]
    by (simp add: rest ordered_in_july_def visible_without_filters sample_customer_sel
        sample_Date_july)
  show ?thesis using active bound none jan jul by simp
qed

declare decimal.simps [simp del]

lemma digit_of_digit_char: "d < 10 \<Longrightarrow> digit_of (digit_char d) = Some d"
  by (simp add: digit_of_def digit_char_def)

lemma digit_not_blank:
  "digit_of c = Some d \<Longrightarrow> \<not> is_white_space c \<and> c \<noteq> CHR ''-'' \<and> c \<noteq> CHR ''+''"
  by (auto simp: digit_of_def is_white_space_def Let_def split: if_splits)

lemma leading_digits_stop:
  "(case rest of [] \<Rightarrow> True | r # rs \<Rightarrow> digit_of r = None) \<Longrightarrow> leading_digits acc rest = acc"
  by (cases rest) simp_all

lemma leading_digits_decimal:
  "leading_digits acc (decimal n @ rest) =
   leading_digits (Some ((case acc of None \<Rightarrow> 0 | Some a \<Rightarrow> a * 10 ^ length (decimal n)) + n)) rest"
proof (induction n arbitrary: acc rest rule: decimal.induct)
  case (1 n)
  show ?case
  proof (cases "n < 10")
    case True
    then show ?thesis
      by (subst (1 2) decimal.simps) (simp add: digit_of_digit_char mult.commute split: option.split)
  next
    case False
    have "leading_digits acc (decimal n @ rest) =
          leading_digits acc (decimal (n div 10) @ (digit_char (n mod 10) # rest))"
      using False by (subst decimal.simps) simp
    also have "\<dots> = leading_digits
        (Some ((case acc of None \<Rightarrow> 0 | Some a \<Rightarrow> a * 10 ^ length (decimal (n div 10))) + n div 10))
        (digit_char (n mod 10) # rest)"
      using False by (simp add: "1.IH")
    also have "\<dots> = leading_digits
        (Some ((case acc of None \<Rightarrow> 0 | Some a \<Rightarrow> a * 10 ^ length (decimal n)) + n)) rest"
    proof -
      have len: "length (decimal n) = Suc (length (decimal (n div 10)))"
        using False by (subst decimal.simps) simp
      show ?thesis
        by (simp add: digit_of_digit_char len algebra_simps split: option.split)
    qed
    finally show ?thesis .
  qed
qed

lemma decimal_head: "\<exists>c cs d. decimal n = c # cs \<and> digit_of c = Some d"
proof (induction n rule: decimal.induct)
  case (1 n)
  show ?case
  proof (cases "n < 10")
    case True
    then show ?thesis by (subst decimal.simps) (simp add: digit_of_digit_char)
  next
    case False
    with 1 obtain c cs d where "decimal (n div 10) = c # cs" "digit_of c = Some d" by blast
    with False show ?thesis by (subst decimal.simps) simp
  qed
qed

lemma parseInt_no_leading_integer:
  assumes "no_leading_integer s"
  shows "parseInt s = None"
proof (cases "dropWhile is_white_space s")
  case Nil
  show ?thesis unfolding parseInt_def Nil by simp
next
  case (Cons c cs)
  show ?thesis
  proof (cases "c = CHR ''-'' \<or> c = CHR ''+''")
    case True
    with assms Cons have "leading_digits None cs = None"
      by (cases cs) (simp_all add: no_leading_integer_def)
    with True Cons show ?thesis by (auto simp: parseInt_def)
  next
    case False
    with assms Cons have "digit_of c = None" by (simp add: no_leading_integer_def)
    with False Cons show ?thesis by (simp add: parseInt_def)
  qed
qed

lemma decimal_not_empty: "decimal n @ rest \<noteq> []"
  using decimal_head [of n] by auto

lemma no_leading_integer_not_empty_case:
  "customer_visible h q c = customer_visible h (q\<lparr>itemsOrderCount := []\<rparr>) c"
  if "parseInt (itemsOrderCount q) = None"
  using that by (simp add: customer_visible_def Let_def split: option.split)

text \<open>
  C8.  The claim: a non-numeric minimum order count is treated as no filter.  The text
  \<^verbatim>\<open>5abc\<close> is not a number, and \<^verbatim>\<open>parseInt\<close> reads it as 5: a customer with three
  orders, visible without the filter, is hidden.
\<close>

theorem min_order_count_5abc:
  "\<not> customer_visible sample_host (customer_filters ''5abc'' []) three_orders \<and>
   customer_visible sample_host (customer_filters [] []) three_orders"
  by code_simp

lemma zero_char: "digit_char 0 = CHR ''0''"
  by code_simp

lemma digit_of_zero: "digit_of CHR ''0'' = Some 0"
  by (simp add: digit_of_def)

lemma digit_char_of: "digit_of c = Some v \<Longrightarrow> c = digit_char v \<and> v < 10"
  by (auto simp: digit_of_def digit_char_def Let_def split: if_splits)

lemma leading_digits_zeros:
  "leading_digits acc (replicate k CHR ''0'' @ t) =
   leading_digits (if k = 0 then acc else Some ((case acc of None \<Rightarrow> 0 | Some a \<Rightarrow> a) * 10 ^ k)) t"
proof (induction k arbitrary: acc)
  case 0
  show ?case by simp
next
  case (Suc k)
  show ?case
    by (simp add: digit_of_zero Suc.IH mult.assoc mult.commute mult.left_commute split: option.split)
qed

lemma leading_digits_numeral:
  assumes "case rest of [] \<Rightarrow> True | r # rs \<Rightarrow> digit_of r = None"
  shows "leading_digits None (replicate k CHR ''0'' @ decimal n @ rest) = Some n"
  by (simp add: leading_digits_zeros leading_digits_decimal leading_digits_stop [OF assms])

lemma numeral_head:
  "\<exists>c cs d. replicate k CHR ''0'' @ decimal n @ rest = c # cs \<and> digit_of c = Some d"
proof (cases k)
  case 0
  then show ?thesis using decimal_head [of n] by auto
next
  case (Suc j)
  then show ?thesis by (simp add: digit_of_zero)
qed

lemma parseInt_numeral:
  assumes "list_all is_white_space ws"
    and "sg = [] \<or> sg = ''+'' \<or> sg = ''-''"
    and "case rest of [] \<Rightarrow> True | r # rs \<Rightarrow> digit_of r = None"
  shows "parseInt (ws @ sg @ replicate k CHR ''0'' @ decimal n @ rest) =
         Some (if sg = ''-'' then - int n else int n)"
proof -
  let ?t = "replicate k CHR ''0'' @ decimal n @ rest"
  have skip: "dropWhile is_white_space (ws @ u) = dropWhile is_white_space u" for u
    using assms(1) by (simp add: list_all_iff dropWhile_append2)
  have val: "leading_digits None ?t = Some n"
    by (rule leading_digits_numeral [OF assms(3)])
  obtain c cs d where t: "?t = c # cs" and dig: "digit_of c = Some d"
    using numeral_head by blast
  from dig have nb: "\<not> is_white_space c" "c \<noteq> CHR ''-''" "c \<noteq> CHR ''+''"
    using digit_not_blank by blast+
  have sign: "\<not> is_white_space CHR ''-''" "\<not> is_white_space CHR ''+''"
    by (simp_all add: is_white_space_def)
  from assms(2) show ?thesis
  proof (elim disjE)
    assume "sg = []"
    then show ?thesis
      unfolding parseInt_def skip using t nb val by simp
  next
    assume "sg = ''+''"
    then show ?thesis
      unfolding parseInt_def skip using sign val by simp
  next
    assume "sg = ''-''"
    then show ?thesis
      unfolding parseInt_def skip using sign val by simp
  qed
qed

lemma digits_numeral:
  assumes "ds \<noteq> []" and "list_all (\<lambda>c. digit_of c \<noteq> None) ds"
  shows "\<exists>k n. ds = replicate k CHR ''0'' @ decimal n"
  using assms
proof (induction ds rule: rev_nonempty_induct)
  case (single c)
  then obtain v where "digit_of c = Some v" by auto
  then have "c = digit_char v" "v < 10" using digit_char_of by blast+
  then have "[c] = replicate 0 CHR ''0'' @ decimal v" by (simp add: decimal.simps)
  then show ?case by blast
next
  case (snoc c ds)
  then obtain k n where ds: "ds = replicate k CHR ''0'' @ decimal n" by auto
  from snoc.prems obtain v where "digit_of c = Some v" by auto
  then have c: "c = digit_char v" "v < 10" using digit_char_of by blast+
  show ?case
  proof (cases "n = 0")
    case True
    then have "decimal n = [CHR ''0'']" by (simp add: decimal.simps zero_char)
    with ds have "ds = replicate (Suc k) CHR ''0''" by (simp add: replicate_append_same)
    with c have "ds @ [c] = replicate (Suc k) CHR ''0'' @ decimal v"
      by (simp add: decimal.simps)
    then show ?thesis by blast
  next
    case False
    with c have "decimal (10 * n + v) = decimal n @ [c]"
      by (subst decimal.simps) simp
    with ds have "ds @ [c] = replicate k CHR ''0'' @ decimal (10 * n + v)" by simp
    then show ?thesis by blast
  qed
qed

lemma leading_run:
  "\<exists>ds rest. xs = ds @ rest \<and> list_all P ds \<and>
     (case rest of [] \<Rightarrow> True | r # rs \<Rightarrow> \<not> P r) \<and> (\<forall>y ys. xs = y # ys \<and> P y \<longrightarrow> ds \<noteq> [])"
proof (induction xs)
  case Nil
  show ?case by simp
next
  case (Cons x xs)
  then obtain ds rest where IH: "xs = ds @ rest" "list_all P ds"
      "case rest of [] \<Rightarrow> True | r # rs \<Rightarrow> \<not> P r"
    by blast
  show ?case
  proof (cases "P x")
    case True
    with IH have "x # xs = (x # ds) @ rest \<and> list_all P (x # ds) \<and>
        (case rest of [] \<Rightarrow> True | r # rs \<Rightarrow> \<not> P r) \<and> x # ds \<noteq> []"
      by simp
    then show ?thesis by blast
  next
    case False
    then have "x # xs = [] @ (x # xs) \<and> list_all P [] \<and>
        (case x # xs of [] \<Rightarrow> True | r # rs \<Rightarrow> \<not> P r) \<and>
        (\<forall>y ys. x # xs = y # ys \<and> P y \<longrightarrow> ([]::'a list) \<noteq> [])"
      by simp
    then show ?thesis by blast
  qed
qed

lemma starts_with_digit_numeral:
  assumes "digit_of c \<noteq> None"
  shows "\<exists>k n rest. c # cs = replicate k CHR ''0'' @ decimal n @ rest \<and>
           (case rest of [] \<Rightarrow> True | r # rs \<Rightarrow> digit_of r = None)"
proof -
  obtain ds rest where run: "c # cs = ds @ rest" "list_all (\<lambda>c. digit_of c \<noteq> None) ds"
      "case rest of [] \<Rightarrow> True | r # rs \<Rightarrow> \<not> digit_of r \<noteq> None" "ds \<noteq> []"
    using leading_run [of "c # cs" "\<lambda>c. digit_of c \<noteq> None"] assms by blast
  then obtain k n where "ds = replicate k CHR ''0'' @ decimal n"
    using digits_numeral by blast
  with run(1) have "c # cs = replicate k CHR ''0'' @ decimal n @ rest" by simp
  moreover from run(3) have "case rest of [] \<Rightarrow> True | r # rs \<Rightarrow> digit_of r = None"
    by (cases rest) simp_all
  ultimately show ?thesis by blast
qed

lemma every_text_covered:
  "no_leading_integer s \<or>
   (\<exists>ws sg k n rest. s = ws @ sg @ replicate k CHR ''0'' @ decimal n @ rest \<and>
      list_all is_white_space ws \<and> (sg = [] \<or> sg = ''+'' \<or> sg = ''-'') \<and>
      (case rest of [] \<Rightarrow> True | r # rs \<Rightarrow> digit_of r = None))"
proof (cases "no_leading_integer s")
  case True
  then show ?thesis by simp
next
  case False
  let ?ws = "takeWhile is_white_space s" and ?t = "dropWhile is_white_space s"
  have s: "s = ?ws @ ?t" by simp
  have ws: "list_all is_white_space ?ws" by (simp add: list_all_iff) (meson set_takeWhileD)
  from False obtain c cs where t: "?t = c # cs"
    by (cases ?t) (simp_all add: no_leading_integer_def)
  have "\<exists>sg d ds. ?t = sg @ d # ds \<and> (sg = [] \<or> sg = ''+'' \<or> sg = ''-'') \<and> digit_of d \<noteq> None"
  proof (cases "c = CHR ''-'' \<or> c = CHR ''+''")
    case True
    with False t obtain d ds where cs: "cs = d # ds" and d: "digit_of d \<noteq> None"
      by (cases cs) (auto simp: no_leading_integer_def)
    from True show ?thesis
    proof
      assume "c = CHR ''-''"
      with t cs have "?t = ''-'' @ d # ds" by simp
      with d show ?thesis by blast
    next
      assume "c = CHR ''+''"
      with t cs have "?t = ''+'' @ d # ds" by simp
      with d show ?thesis by blast
    qed
  next
    case no_sign: False
    with False t have "digit_of c \<noteq> None" by (auto simp: no_leading_integer_def)
    with t have "?t = [] @ c # cs \<and> digit_of c \<noteq> None" by simp
    then show ?thesis by blast
  qed
  then obtain sg d ds where split: "?t = sg @ d # ds"
    and sg: "sg = [] \<or> sg = ''+'' \<or> sg = ''-''" and d: "digit_of d \<noteq> None"
    by blast
  from d obtain k n rest where num: "d # ds = replicate k CHR ''0'' @ decimal n @ rest"
    and rest: "case rest of [] \<Rightarrow> True | r # rs \<Rightarrow> digit_of r = None"
    using starts_with_digit_numeral by blast
  have "s = ?ws @ sg @ replicate k CHR ''0'' @ decimal n @ rest"
    using split num by (subst s) simp
  with sg ws rest show ?thesis by blast
qed

text \<open>
  C8, as the code has it.  When the filter text is white space, an optional sign,
  zeros, the decimal numeral of \<open>n\<close> and then something that does not start with a digit
  (or nothing), a customer is visible exactly when it passes the other filters and its
  number of orders is at least the integer read (\<open>n\<close>, or \<open>- n\<close> after a minus sign).
  When the text does not start with an integer, the filter is as good as absent.  Every
  text is of one of these two kinds.
\<close>

theorem min_order_count_filter:
  "(itemsOrderCount q = ws @ sg @ replicate k CHR ''0'' @ decimal n @ rest \<and>
    list_all is_white_space ws \<and> (sg = [] \<or> sg = ''+'' \<or> sg = ''-'') \<and>
    (case rest of [] \<Rightarrow> True | r # rs \<Rightarrow> digit_of r = None) \<longrightarrow>
      customer_visible h q c =
        (customer_visible h (q\<lparr>itemsOrderCount := []\<rparr>) c \<and>
         (if sg = ''-'' then - int n else int n) \<le> int (numberOfOrders c))) \<and>
   (no_leading_integer (itemsOrderCount q) \<longrightarrow>
      customer_visible h q c = customer_visible h (q\<lparr>itemsOrderCount := []\<rparr>) c) \<and>
   (no_leading_integer (itemsOrderCount q) \<or>
    (\<exists>ws sg k n rest.
       itemsOrderCount q = ws @ sg @ replicate k CHR ''0'' @ decimal n @ rest \<and>
       list_all is_white_space ws \<and> (sg = [] \<or> sg = ''+'' \<or> sg = ''-'') \<and>
       (case rest of [] \<Rightarrow> True | r # rs \<Rightarrow> digit_of r = None)))"
proof (intro conjI impI)
  assume a: "itemsOrderCount q = ws @ sg @ replicate k CHR ''0'' @ decimal n @ rest \<and>
    list_all is_white_space ws \<and> (sg = [] \<or> sg = ''+'' \<or> sg = ''-'') \<and>
    (case rest of [] \<Rightarrow> True | r # rs \<Rightarrow> digit_of r = None)"
  then have p: "parseInt (itemsOrderCount q) = Some (if sg = ''-'' then - int n else int n)"
    using parseInt_numeral [of ws sg rest k n] by simp
  from a have ne: "itemsOrderCount q \<noteq> []"
    using decimal_not_empty [of n rest] by simp
  from p ne show "customer_visible h q c =
        (customer_visible h (q\<lparr>itemsOrderCount := []\<rparr>) c \<and>
         (if sg = ''-'' then - int n else int n) \<le> int (numberOfOrders c))"
    by (simp add: customer_visible_def Let_def not_less split: option.split)
next
  assume "no_leading_integer (itemsOrderCount q)"
  then have "parseInt (itemsOrderCount q) = None" by (rule parseInt_no_leading_integer)
  then show "customer_visible h q c = customer_visible h (q\<lparr>itemsOrderCount := []\<rparr>) c"
    by (rule no_leading_integer_not_empty_case)
next
  show "no_leading_integer (itemsOrderCount q) \<or>
    (\<exists>ws sg k n rest.
       itemsOrderCount q = ws @ sg @ replicate k CHR ''0'' @ decimal n @ rest \<and>
       list_all is_white_space ws \<and> (sg = [] \<or> sg = ''+'' \<or> sg = ''-'') \<and>
       (case rest of [] \<Rightarrow> True | r # rs \<Rightarrow> digit_of r = None))"
    by (rule every_text_covered)
qed

text \<open>
  A customer with three orders: hidden by \<^verbatim>\<open>5\<close>, \<^verbatim>\<open>5abc\<close>, \<^verbatim>\<open> 5\<close> and \<^verbatim>\<open>007\<close>, visible with
  \<^verbatim>\<open>3\<close>, \<^verbatim>\<open>-5\<close>, \<^verbatim>\<open>+003.9\<close> and \<^verbatim>\<open>abc\<close>.
\<close>

theorem min_order_count_filter_witness:
  "\<not> customer_visible sample_host (customer_filters ''5'' []) three_orders \<and>
   \<not> customer_visible sample_host (customer_filters ''5abc'' []) three_orders \<and>
   customer_visible sample_host (customer_filters ''3'' []) three_orders \<and>
   customer_visible sample_host (customer_filters ''-5'' []) three_orders \<and>
   \<not> customer_visible sample_host (customer_filters '' 5'' []) three_orders \<and>
   \<not> customer_visible sample_host (customer_filters ''007'' []) three_orders \<and>
   customer_visible sample_host (customer_filters ''+003.9'' []) three_orders \<and>
   no_leading_integer (itemsOrderCount (customer_filters ''abc'' [])) \<and>
   customer_visible sample_host (customer_filters ''abc'' []) three_orders"
proof -
  have shape:
    "itemsOrderCount (customer_filters ''5'' []) = [] @ [] @ replicate 0 CHR ''0'' @ decimal 5 @ []"
    "itemsOrderCount (customer_filters ''5abc'' []) =
       [] @ [] @ replicate 0 CHR ''0'' @ decimal 5 @ ''abc''"
    "itemsOrderCount (customer_filters ''3'' []) = [] @ [] @ replicate 0 CHR ''0'' @ decimal 3 @ []"
    "itemsOrderCount (customer_filters ''-5'' []) =
       [] @ ''-'' @ replicate 0 CHR ''0'' @ decimal 5 @ []"
    "itemsOrderCount (customer_filters '' 5'' []) =
       '' '' @ [] @ replicate 0 CHR ''0'' @ decimal 5 @ []"
    "itemsOrderCount (customer_filters ''007'' []) =
       [] @ [] @ replicate 2 CHR ''0'' @ decimal 7 @ []"
    "itemsOrderCount (customer_filters ''+003.9'' []) =
       [] @ ''+'' @ replicate 2 CHR ''0'' @ decimal 3 @ ''.9''"
    by code_simp+
  have blank: "list_all is_white_space '' ''" "list_all is_white_space []"
    by (simp_all add: is_white_space_def)
  have stop: "digit_of CHR ''a'' = None" "digit_of CHR ''.'' = None"
    by (simp_all add: digit_of_def)
  have abc: "no_leading_integer (itemsOrderCount (customer_filters ''abc'' []))"
    by (simp add: customer_filters_def no_leading_integer_def is_white_space_def digit_of_def)
  have rest: "customer_filters cnt []\<lparr>itemsOrderCount := []\<rparr> = customer_filters [] []" for cnt
    by (simp add: customer_filters_def)
  have n: "numberOfOrders three_orders = 3"
    by (simp add: three_orders_def sample_customer_sel)
  have v: "customer_visible sample_host (customer_filters [] []) three_orders"
    by (simp add: three_orders_def visible_without_filters)
  have a: "\<not> customer_visible sample_host (customer_filters ''5'' []) three_orders"
    using min_order_count_filter [where q = "customer_filters ''5'' []" and ws = "[]" and sg = "[]"
        and k = 0 and n = 5 and rest = "[]" and h = sample_host and c = three_orders]
      shape(1) blank
    by (simp add: rest n)
  have b: "\<not> customer_visible sample_host (customer_filters ''5abc'' []) three_orders"
    using min_order_count_filter [where q = "customer_filters ''5abc'' []" and ws = "[]"
        and sg = "[]" and k = 0 and n = 5 and rest = "''abc''" and h = sample_host
        and c = three_orders]
      shape(2) blank stop
    by (simp add: rest n)
  have c: "customer_visible sample_host (customer_filters ''3'' []) three_orders"
    using min_order_count_filter [where q = "customer_filters ''3'' []" and ws = "[]" and sg = "[]"
        and k = 0 and n = 3 and rest = "[]" and h = sample_host and c = three_orders]
      shape(3) blank
    by (simp add: rest n v)
  have d: "customer_visible sample_host (customer_filters ''-5'' []) three_orders"
    using min_order_count_filter [where q = "customer_filters ''-5'' []" and ws = "[]"
        and sg = "''-''" and k = 0 and n = 5 and rest = "[]" and h = sample_host
        and c = three_orders]
      shape(4) blank
    by (simp add: rest n v)
  have e: "\<not> customer_visible sample_host (customer_filters '' 5'' []) three_orders"
    using min_order_count_filter [where q = "customer_filters '' 5'' []" and ws = "'' ''"
        and sg = "[]" and k = 0 and n = 5 and rest = "[]" and h = sample_host
        and c = three_orders]
      shape(5) blank
    by (simp add: rest n)
  have f: "\<not> customer_visible sample_host (customer_filters ''007'' []) three_orders"
    using min_order_count_filter [where q = "customer_filters ''007'' []" and ws = "[]"
        and sg = "[]" and k = 2 and n = 7 and rest = "[]" and h = sample_host
        and c = three_orders]
      shape(6) blank
    by (simp add: rest n)
  have g: "customer_visible sample_host (customer_filters ''+003.9'' []) three_orders"
    using min_order_count_filter [where q = "customer_filters ''+003.9'' []" and ws = "[]"
        and sg = "''+''" and k = 2 and n = 3 and rest = "''.9''" and h = sample_host
        and c = three_orders]
      shape(7) blank stop
    by (simp add: rest n v)
  have i: "customer_visible sample_host (customer_filters ''abc'' []) three_orders"
    using min_order_count_filter [where q = "customer_filters ''abc'' []" and h = sample_host
        and c = three_orders] abc
    by (simp add: rest v)
  show ?thesis using abc a b c d e f g i by simp
qed

section \<open>Properties of the sort\<close>

lemma set_insert_by: "set (insert_by f x xs) = insert x (set xs)"
  by (induction xs) auto

lemma set_array_sort: "set (array_sort f xs) = set xs"
  by (induction xs) (simp_all add: set_insert_by)

lemma filter_insert_by:
  assumes "\<And>y. y \<in> set xs \<Longrightarrow> key y = key x \<Longrightarrow> f x y \<le> 0"
  shows "filter (\<lambda>r. key r = k) (insert_by f x xs) =
         (if key x = k then x # filter (\<lambda>r. key r = k) xs else filter (\<lambda>r. key r = k) xs)"
  using assms
proof (induction xs)
  case Nil
  show ?case by simp
next
  case (Cons y ys)
  then have IH: "filter (\<lambda>r. key r = k) (insert_by f x ys) =
         (if key x = k then x # filter (\<lambda>r. key r = k) ys else filter (\<lambda>r. key r = k) ys)"
    by simp
  show ?case
  proof (cases "f x y \<le> 0")
    case True
    then show ?thesis by simp
  next
    case False
    with Cons.prems have "key y \<noteq> key x" by auto
    with False IH show ?thesis by auto
  qed
qed

lemma filter_array_sort:
  assumes "\<And>x y. key x = key y \<Longrightarrow> f x y \<le> 0"
  shows "filter (\<lambda>r. key r = k) (array_sort f xs) = filter (\<lambda>r. key r = k) xs"
  by (induction xs) (simp_all add: filter_insert_by assms)

lemma insert_by_in_front:
  "sorted_wrt (\<lambda>a b. f a b \<le> 0) (x # xs) \<Longrightarrow> insert_by f x xs = x # xs"
  by (cases xs) simp_all

lemma array_sort_of_sorted:
  "sorted_wrt (\<lambda>a b. f a b \<le> 0) xs \<Longrightarrow> array_sort f xs = xs"
proof (induction xs)
  case Nil
  show ?case by simp
next
  case (Cons x xs)
  then have "array_sort f xs = xs" by simp
  with Cons.prems show ?case by (simp add: insert_by_in_front del: sorted_wrt.simps)
qed

lemma sorted_insert_by:
  assumes trans: "\<And>a b c. a \<in> A \<Longrightarrow> b \<in> A \<Longrightarrow> c \<in> A \<Longrightarrow> f a b \<le> 0 \<Longrightarrow> f b c \<le> 0 \<Longrightarrow> f a c \<le> 0"
    and total: "\<And>a b. a \<in> A \<Longrightarrow> b \<in> A \<Longrightarrow> f a b \<le> 0 \<or> f b a \<le> 0"
    and "x \<in> A" "set xs \<subseteq> A" "sorted_wrt (\<lambda>a b. f a b \<le> 0) xs"
  shows "sorted_wrt (\<lambda>a b. f a b \<le> 0) (insert_by f x xs)"
  using assms(3-)
proof (induction xs)
  case Nil
  show ?case by simp
next
  case (Cons y ys)
  show ?case
  proof (cases "f x y \<le> 0")
    case True
    have "f x z \<le> 0" if "z \<in> set ys" for z
    proof -
      from Cons.prems that have "f y z \<le> 0" "z \<in> A" "y \<in> A" by auto
      with True Cons.prems(1) show ?thesis using trans by blast
    qed
    with True Cons.prems show ?thesis by simp
  next
    case False
    with Cons.prems have yx: "f y x \<le> 0" using total by auto
    from Cons have "sorted_wrt (\<lambda>a b. f a b \<le> 0) (insert_by f x ys)" by simp
    with False yx Cons.prems show ?thesis by (auto simp: set_insert_by)
  qed
qed

lemma sorted_array_sort:
  assumes trans: "\<And>a b c. a \<in> A \<Longrightarrow> b \<in> A \<Longrightarrow> c \<in> A \<Longrightarrow> f a b \<le> 0 \<Longrightarrow> f b c \<le> 0 \<Longrightarrow> f a c \<le> 0"
    and total: "\<And>a b. a \<in> A \<Longrightarrow> b \<in> A \<Longrightarrow> f a b \<le> 0 \<or> f b a \<le> 0"
    and "set xs \<subseteq> A"
  shows "sorted_wrt (\<lambda>a b. f a b \<le> 0) (array_sort f xs)"
  using assms(3)
proof (induction xs)
  case Nil
  show ?case by simp
next
  case (Cons x xs)
  then have sorted: "sorted_wrt (\<lambda>a b. f a b \<le> 0) (array_sort f xs)" by simp
  have inside: "set (array_sort f xs) \<subseteq> A" using Cons.prems by (simp add: set_array_sort)
  have x: "x \<in> A" using Cons.prems by simp
  have "sorted_wrt (\<lambda>a b. f a b \<le> 0) (insert_by f x (array_sort f xs))"
    by (rule sorted_insert_by [where A = A, OF trans total x inside sorted])
  then show ?case by simp
qed

lemma num_lt_irrefl: "\<not> num_lt a a"
  by (cases a) simp_all

lemma num_lt_asym: "num_lt a b \<Longrightarrow> \<not> num_lt b a"
  by (cases a; cases b) simp_all

lemma num_lt_between:
  "a \<noteq> NaN \<Longrightarrow> b \<noteq> NaN \<Longrightarrow> c \<noteq> NaN \<Longrightarrow> num_lt c a \<Longrightarrow> num_lt b a \<or> num_lt c b"
  by (cases a; cases b; cases c) auto

lemma js_lt_irrefl: "\<not> js_lt a a"
  by (cases a) (simp_all add: js_lt_def num_lt_irrefl)

lemma js_lt_cases:
  "js_lt a b \<Longrightarrow>
   (\<exists>x y. a = JStr x \<and> b = JStr y \<and> x < y) \<or> (\<exists>x y. a = JNum x \<and> b = JNum y \<and> num_lt x y)"
  by (cases a; cases b) (simp_all add: js_lt_def)

lemma js_lt_simps:
  "js_lt (JStr x) (JStr y) = (x < y)"
  "js_lt (JNum m) (JNum n) = num_lt m n"
  "js_lt JUndefined b = False"
  "js_lt a JUndefined = False"
  by (simp_all add: js_lt_def split: json.split)

lemma js_lt_asym: "js_lt a b \<Longrightarrow> \<not> js_lt b a"
  by (auto dest!: js_lt_cases simp: js_lt_simps dest: num_lt_asym)

lemma comparable_cases:
  "comparable a b \<Longrightarrow>
   (\<exists>x y. a = JStr x \<and> b = JStr y) \<or>
   (\<exists>x y. a = JNum x \<and> b = JNum y \<and> x \<noteq> NaN \<and> y \<noteq> NaN) \<or>
   (a = JUndefined \<and> b = JUndefined)"
  by (cases a; cases b) (simp_all add: comparable_def)

lemma js_lt_between:
  assumes "comparable a b" "comparable b c" "js_lt c a"
  shows "js_lt b a \<or> js_lt c b"
proof -
  from assms(3) consider
      x z where "c = JStr z" "a = JStr x" "z < x"
    | m k where "c = JNum k" "a = JNum m" "num_lt k m"
    using js_lt_cases by blast
  then show ?thesis
  proof cases
    case 1
    with assms(1) obtain y where "b = JStr y" using comparable_cases by blast
    with 1 show ?thesis by (auto simp: js_lt_simps)
  next
    case 2
    with assms(1) obtain n where b: "b = JNum n" "n \<noteq> NaN" "m \<noteq> NaN"
      using comparable_cases by blast
    with 2 assms(2) have "k \<noteq> NaN" using comparable_cases by blast
    with 2 b show ?thesis using num_lt_between [of m n k] by (simp add: js_lt_simps)
  qed
qed

lemma compare_values_le:
  "compare_values d a b \<le> 0 \<longleftrightarrow>
   (if d = Some ''asc'' then \<not> js_lt b a else \<not> js_lt a b)"
  using js_lt_asym [of a b] by (auto simp: compare_values_def js_gt_def)

lemma compare_values_same: "compare_values d v v \<le> 0"
  by (simp add: compare_values_def js_gt_def js_lt_irrefl)

lemma compare_values_total: "compare_values d a b \<le> 0 \<or> compare_values d b a \<le> 0"
  using js_lt_asym [of a b] by (auto simp: compare_values_le)

lemma compare_values_trans:
  "comparable a b \<Longrightarrow> comparable b c \<Longrightarrow> comparable c b \<Longrightarrow> comparable b a \<Longrightarrow>
   compare_values d a b \<le> 0 \<Longrightarrow> compare_values d b c \<le> 0 \<Longrightarrow> compare_values d a c \<le> 0"
  using js_lt_between [of a b c] js_lt_between [of c b a]
  by (auto simp: compare_values_le split: if_splits)

lemma order_values_comparable:
  assumes "Date h (JStr (processedAt a)) \<noteq> NaN \<and> parseFloat h (amount_or_zero a) \<noteq> NaN"
    and "Date h (JStr (processedAt b)) \<noteq> NaN \<and> parseFloat h (amount_or_zero b) \<noteq> NaN"
  shows "comparable (order_sort_value h k a) (order_sort_value h k b)"
  using assms by (simp add: order_sort_value_def comparable_def)

lemma customer_values_comparable:
  assumes "Date h (JStr (createdAt a)) \<noteq> NaN" and "Date h (JStr (createdAt b)) \<noteq> NaN"
  shows "comparable (customer_sort_value h k a) (customer_sort_value h k b)"
  using assms by (simp add: customer_sort_value_def comparable_def)

lemma array_sort_twice:
  assumes "\<And>a b. a \<in> set xs \<Longrightarrow> b \<in> set xs \<Longrightarrow> comparable (key a) (key b)"
  shows "array_sort (\<lambda>a b. compare_values d (key a) (key b))
           (array_sort (\<lambda>a b. compare_values d (key a) (key b)) xs) =
         array_sort (\<lambda>a b. compare_values d (key a) (key b)) xs"
proof (rule array_sort_of_sorted, rule sorted_array_sort [where A = "set xs"])
  fix a b c
  assume "a \<in> set xs" "b \<in> set xs" "c \<in> set xs"
    and "compare_values d (key a) (key b) \<le> 0" "compare_values d (key b) (key c) \<le> 0"
  then show "compare_values d (key a) (key c) \<le> 0"
    using compare_values_trans [of "key a" "key b" "key c" d] assms by blast
next
  fix a b
  show "compare_values d (key a) (key b) \<le> 0 \<or> compare_values d (key b) (key a) \<le> 0"
    by (rule compare_values_total)
next
  show "set xs \<subseteq> set xs" by simp
qed

lemma filter_array_sort_all:
  "(\<And>x. x \<in> set xs \<Longrightarrow> P x) \<Longrightarrow> filter P (array_sort f xs) = array_sort f xs"
  by (simp add: set_array_sort)

lemma four_orders_parse:
  "list_all (\<lambda>a. Date sample_host (JStr (processedAt a)) \<noteq> NaN \<and>
                  parseFloat sample_host (amount_or_zero a) \<noteq> NaN) four_orders"
  by code_simp

lemma three_customers_parse:
  "list_all (\<lambda>a. Date sample_host (JStr (createdAt a)) \<noteq> NaN) three_customers"
  by code_simp

text \<open>
  C9.  Sorting is stable for both lists.  Take a batch whose timestamps and amounts
  parse and a selected sort \<open>s\<close>: the visible rows whose sort value is \<open>v\<close> are the
  filtered rows whose sort value is \<open>v\<close>, in the same order.  So any two records with
  equal sort values stand in the visible rows as they stood after filtering.
\<close>

theorem sort_keeps_ties_in_order:
  assumes "list_all (\<lambda>a. Date h (JStr (processedAt a)) \<noteq> NaN \<and>
                          parseFloat h (amount_or_zero a) \<noteq> NaN) orders"
    and "list_all (\<lambda>a. Date h (JStr (createdAt a)) \<noteq> NaN) customers"
    and "sortSelected q = s # ss"
    and "sortSelected p = s' # ss'"
  shows "filter (\<lambda>r. order_sort_value h (sort_key_of s) r = v) (order_rows (Order h orders q)) =
         filter (\<lambda>r. order_sort_value h (sort_key_of s) r = v)
           (filter (order_visible h q) orders) \<and>
         filter (\<lambda>r. customer_sort_value h (sort_key_of s') r = w)
           (customer_rows (Customer h customers p)) =
         filter (\<lambda>r. customer_sort_value h (sort_key_of s') r = w)
           (filter (customer_visible h p) customers)"
  using assms(3,4)
  by (simp add: Order_def Customer_def filteredOrders_def filteredCustomers_def
      filter_array_sort compare_values_same)

theorem sort_keeps_ties_in_order_witness:
  "list_all (\<lambda>a. Date sample_host (JStr (processedAt a)) \<noteq> NaN \<and>
                  parseFloat sample_host (amount_or_zero a) \<noteq> NaN) four_orders \<and>
   list_all (\<lambda>a. Date sample_host (JStr (createdAt a)) \<noteq> NaN) three_customers \<and>
   map name (filter (\<lambda>r. order_sort_value sample_host (sort_key_of ''total asc'') r = JNum (Num 10))
               (order_rows (Order sample_host four_orders (order_sorting ''total asc'')))) =
     [''#1003'', ''#1001''] \<and>
   map numberOfOrders
     (filter (\<lambda>r. customer_sort_value sample_host (sort_key_of ''name asc'') r =
                   JStr ''ada lovelace'')
        (customer_rows (Customer sample_host three_customers (customer_sorting ''name asc'')))) =
     [3, 0]"
proof -
  have s: "sortSelected (order_sorting ''total asc'') = [''total asc'']"
    by (simp add: order_sorting_def)
  have s': "sortSelected (customer_sorting ''name asc'') = [''name asc'']"
    by (simp add: customer_sorting_def)
  have unsorted:
    "map name (filter (\<lambda>r. order_sort_value sample_host (sort_key_of ''total asc'') r =
                           JNum (Num 10))
       (filter (order_visible sample_host (order_sorting ''total asc'')) four_orders)) =
     [''#1003'', ''#1001'']"
    by code_simp
  have unsorted':
    "map numberOfOrders
       (filter (\<lambda>r. customer_sort_value sample_host (sort_key_of ''name asc'') r =
                     JStr ''ada lovelace'')
          (filter (customer_visible sample_host (customer_sorting ''name asc''))
             three_customers)) =
     [3, 0]"
    by code_simp
  show ?thesis
    using sort_keeps_ties_in_order [OF four_orders_parse three_customers_parse s s',
        of "JNum (Num 10)" "JStr ''ada lovelace''"]
      four_orders_parse three_customers_parse unsorted unsorted'
    by simp
qed

text \<open>
  C10.  Filtering and sorting again changes nothing: for a batch whose timestamps and
  amounts parse, the visible rows of the visible rows, under the same query, are the
  visible rows.
\<close>

theorem filter_sort_idempotent:
  assumes "list_all (\<lambda>a. Date h (JStr (processedAt a)) \<noteq> NaN \<and>
                          parseFloat h (amount_or_zero a) \<noteq> NaN) orders"
    and "list_all (\<lambda>a. Date h (JStr (createdAt a)) \<noteq> NaN) customers"
  shows "order_rows (Order h (order_rows (Order h orders q)) q) = order_rows (Order h orders q) \<and>
         customer_rows (Customer h (customer_rows (Customer h customers p)) p) =
           customer_rows (Customer h customers p)"
proof
  show "order_rows (Order h (order_rows (Order h orders q)) q) = order_rows (Order h orders q)"
  proof (cases "sortSelected q")
    case Nil
    then show ?thesis by (simp add: Order_def filteredOrders_def)
  next
    case (Cons s ss)
    let ?xs = "filter (order_visible h q) orders"
    let ?f = "\<lambda>a b. compare_values (sort_direction_of s)
                (order_sort_value h (sort_key_of s) a) (order_sort_value h (sort_key_of s) b)"
    have rows: "filteredOrders h xs q = array_sort ?f (filter (order_visible h q) xs)" for xs
      using Cons by (simp add: filteredOrders_def)
    have "comparable (order_sort_value h (sort_key_of s) a) (order_sort_value h (sort_key_of s) b)"
      if "a \<in> set ?xs" "b \<in> set ?xs" for a b
      using that assms(1) by (intro order_values_comparable) (auto simp: list_all_iff)
    then have twice: "array_sort ?f (array_sort ?f ?xs) = array_sort ?f ?xs"
      by (rule array_sort_twice)
    have kept: "filter (order_visible h q) (array_sort ?f ?xs) = array_sort ?f ?xs"
      by (rule filter_array_sort_all) simp
    show ?thesis
      by (simp only: Order_def order_view.simps rows kept twice)
  qed
  show "customer_rows (Customer h (customer_rows (Customer h customers p)) p) =
           customer_rows (Customer h customers p)"
  proof (cases "sortSelected p")
    case Nil
    then show ?thesis by (simp add: Customer_def filteredCustomers_def)
  next
    case (Cons s ss)
    let ?xs = "filter (customer_visible h p) customers"
    let ?f = "\<lambda>a b. compare_values (sort_direction_of s)
                (customer_sort_value h (sort_key_of s) a)
                (customer_sort_value h (sort_key_of s) b)"
    have rows: "filteredCustomers h xs p = array_sort ?f (filter (customer_visible h p) xs)" for xs
      using Cons by (simp add: filteredCustomers_def)
    have "comparable (customer_sort_value h (sort_key_of s) a)
            (customer_sort_value h (sort_key_of s) b)"
      if "a \<in> set ?xs" "b \<in> set ?xs" for a b
      using that assms(2) by (intro customer_values_comparable) (auto simp: list_all_iff)
    then have twice: "array_sort ?f (array_sort ?f ?xs) = array_sort ?f ?xs"
      by (rule array_sort_twice)
    have kept: "filter (customer_visible h p) (array_sort ?f ?xs) = array_sort ?f ?xs"
      by (rule filter_array_sort_all) simp
    show ?thesis
      by (simp only: Customer_def customer_view.simps rows kept twice)
  qed
qed

theorem filter_sort_idempotent_witness:
  "list_all (\<lambda>a. Date sample_host (JStr (processedAt a)) \<noteq> NaN \<and>
                  parseFloat sample_host (amount_or_zero a) \<noteq> NaN) four_orders \<and>
   list_all (\<lambda>a. Date sample_host (JStr (createdAt a)) \<noteq> NaN) three_customers \<and>
   map name (order_rows (Order sample_host four_orders (order_sorting ''total asc''))) =
     [''#1003'', ''#1001'', ''#1004''] \<and>
   map name (order_rows (Order sample_host
      (order_rows (Order sample_host four_orders (order_sorting ''total asc'')))
      (order_sorting ''total asc''))) = [''#1003'', ''#1001'', ''#1004''] \<and>
   map numberOfOrders (customer_rows (Customer sample_host three_customers
      (customer_sorting ''name asc''))) = [3, 0, 1] \<and>
   map numberOfOrders (customer_rows (Customer sample_host
      (customer_rows (Customer sample_host three_customers (customer_sorting ''name asc'')))
      (customer_sorting ''name asc''))) = [3, 0, 1]"
proof -
  have once: "map name (order_rows (Order sample_host four_orders (order_sorting ''total asc''))) =
     [''#1003'', ''#1001'', ''#1004'']"
    by code_simp
  have once': "map numberOfOrders (customer_rows (Customer sample_host three_customers
      (customer_sorting ''name asc''))) = [3, 0, 1]"
    by code_simp
  show ?thesis
    using filter_sort_idempotent [OF four_orders_parse three_customers_parse,
        of "order_sorting ''total asc''" "customer_sorting ''name asc''"]
      four_orders_parse three_customers_parse once once'
    by simp
qed

end
